theory Spec2Isabelle
  imports Complex_Main "HOL-Library.AList"
begin

section \<open>Data model (types.ts)\<close>

text \<open>
  JavaScript numbers that carry durations (polling intervals, server hints) are modelled
  as exact rationals: the adaptive arithmetic multiplies by 1.5, so integers do not
  suffice. Clock readings (\<^verbatim>\<open>Date.now()\<close>) are integers and counters are naturals.
\<close>

datatype link_type = Ping | Webhook

text \<open>
  \<^verbatim>\<open>LinkStatus\<close> is declared as the four strings \<^verbatim>\<open>'active'\<close>, \<^verbatim>\<open>'expired'\<close>,
  \<^verbatim>\<open>'exhausted'\<close> and \<^verbatim>\<open>'deleted'\<close>. The declaration is erased at run time, where the
  \<^verbatim>\<open>linkStatus\<close> of a parsed body can be anything; \<open>OtherStatus\<close> stands for every value
  that is none of the four strings, \<^verbatim>\<open>undefined\<close> (a missing field) included.
\<close>

datatype LinkStatus = Active | Expired | Exhausted | Deleted | OtherStatus

record LinkInfo =
  isValid :: bool
  token :: string
  linkType :: link_type
  hasPassword :: bool
  hasEncryption :: bool
  domain :: string
  password :: "string option"
  encryptionKey :: "string option"

text \<open>The payload is opaque to the SDK; its \<^verbatim>\<open>data\<close> is kept as text.\<close>

record PayloadData =
  pd_type :: link_type
  pd_timestamp :: int
  pd_data :: string

record PollRequest =
  rq_token :: string
  rq_type :: link_type
  rq_password :: "string option"
  rq_clientId :: string
  rq_timestamp :: int
  rq_lastSeen :: "int option"

text \<open>
  The object \<^verbatim>\<open>response.json()\<close> yields, as far as \<^verbatim>\<open>poll()\<close> reads it. The code tests
  \<^verbatim>\<open>hasNewContent\<close>, \<^verbatim>\<open>payload\<close> and \<^verbatim>\<open>error\<close> for truthiness only, so a missing field
  is \<open>False\<close> or \<open>None\<close>. A body that is JSON but has none of the fields, such as
  \<^verbatim>\<open>{}\<close>, is therefore the record with \<open>False\<close>, \<open>None\<close>, \<open>None\<close>, \<open>None\<close> and
  \<open>OtherStatus\<close>.
\<close>

record PollResponse =
  hasNewContent :: bool
  payload :: "PayloadData option"
  nextPollIn :: "rat option"
  error :: "string option"
  linkStatus :: LinkStatus

text \<open>
  What \<^verbatim>\<open>fetch\<close> hands back: a rejection (network failure), or a response with its
  \<^verbatim>\<open>ok\<close> flag and status. \<open>json = None\<close> stands for the two bodies on which the
  \<^verbatim>\<open>try\<close> block of \<^verbatim>\<open>poll()\<close> throws: text that is not JSON, on which
  \<^verbatim>\<open>response.json()\<close> rejects, and the JSON value \<^verbatim>\<open>null\<close>, on which reading
  \<^verbatim>\<open>result.hasNewContent\<close> throws. Every other body is \<open>Some\<close> of what \<^verbatim>\<open>poll()\<close>
  reads of it; reading a field of an object of another shape does not throw.
\<close>

record HttpResponse =
  ok :: bool
  status :: nat
  statusText :: string
  json :: "PollResponse option"

datatype fetch_result = Rejected string | Resolved HttpResponse

text \<open>
  The exceptions and \<^verbatim>\<open>Error\<close> objects that occur in the SDK. \<open>JsonError\<close> is the
  exception raised on a body with \<open>json = None\<close>.
\<close>

datatype js_error =
    HttpError nat string
  | FetchError string
  | JsonError
  | ServerError string
  | HandlerError
  | InvalidLink
  | UrlTypeError
  | OptionsError string

text \<open>
  A caller-supplied callback is abstracted to what the poll loop can observe of it:
  whether it is registered (\<^verbatim>\<open>cb?.(...)\<close> skips an absent one) and whether the call
  returns or throws. Effects of the callback's own body are outside the model.
\<close>

datatype handler = Absent | Returns | Throws

record LinkCallbacks =
  onPayload :: handler
  onError :: handler
  onStatusChange :: handler

record PollerOptions =
  po_endpoint :: string
  po_apiKey :: "string option"
  interval :: rat
  po_callbacks :: LinkCallbacks
  po_debug :: "bool option"

text \<open>The observable actions of a poller: requests sent and callbacks invoked.\<close>

datatype event =
    Fetch PollRequest
  | OnPayload PayloadData LinkInfo
  | OnError js_error LinkInfo
  | OnStatusChange LinkStatus LinkInfo

section \<open>Interval controller (adaptive-poller.ts)\<close>

record AdaptivePoller =
  ap_token :: string
  baseInterval :: rat
  currentInterval :: rat
  backoffMultiplier :: rat
  maxInterval :: rat
  consecutiveEmpty :: nat
  ap_debug :: bool

text \<open>The constructor: 10 s for ping links, one minute for webhook links.\<close>

definition new_AdaptivePoller :: "string \<Rightarrow> link_type \<Rightarrow> bool \<Rightarrow> AdaptivePoller" where
  "new_AdaptivePoller tok ty dbg =
     \<lparr> ap_token = tok,
       baseInterval = (if ty = Ping then 10000 else 60000),
       currentInterval = (if ty = Ping then 10000 else 60000),
       backoffMultiplier = 3 / 2,
       maxInterval = 300000,
       consecutiveEmpty = 0,
       ap_debug = dbg \<rparr>"

text \<open>
  \<^verbatim>\<open>adjustInterval(hasNewContent, nextPollIn?)\<close>. The guard
  \<^verbatim>\<open>nextPollIn && nextPollIn > 0\<close> holds exactly for a present, positive hint; every
  other case falls through to the local heuristic.
\<close>

definition adjustInterval :: "bool \<Rightarrow> rat option \<Rightarrow> AdaptivePoller \<Rightarrow> AdaptivePoller" where
  "adjustInterval hasNew nextPoll a =
     (let heuristic =
        (if hasNew then a\<lparr>currentInterval := baseInterval a, consecutiveEmpty := 0\<rparr>
         else
           (let a1 = a\<lparr>consecutiveEmpty := consecutiveEmpty a + 1\<rparr>
            in if consecutiveEmpty a1 \<ge> 3
               then a1\<lparr>currentInterval :=
                         min (currentInterval a1 * backoffMultiplier a1) (maxInterval a1)\<rparr>
               else a1))
      in case nextPoll of
           Some n \<Rightarrow> if n > 0 then a\<lparr>currentInterval := max n 1000\<rparr> else heuristic
         | None \<Rightarrow> heuristic)"

definition reset :: "AdaptivePoller \<Rightarrow> AdaptivePoller" where
  "reset a = a\<lparr>currentInterval := baseInterval a, consecutiveEmpty := 0\<rparr>"

definition getInterval :: "AdaptivePoller \<Rightarrow> rat" where
  "getInterval a = currentInterval a"

definition getConsecutiveEmpty :: "AdaptivePoller \<Rightarrow> nat" where
  "getConsecutiveEmpty a = consecutiveEmpty a"


section \<open>Link poller (link-poller.ts)\<close>

text \<open>
  Besides the fields of the class, the record carries the part of the host's event loop
  that belongs to this poller: \<open>timers\<close>, the one-shot timers it has armed and that
  have neither fired nor been cleared (handle and delay); \<open>timerSeq\<close>, the last handle
  \<^verbatim>\<open>setTimeout\<close> returned (handles are positive, hence truthy); and \<open>inflight\<close>, the
  number of requests whose \<^verbatim>\<open>await fetch\<close> has not completed yet.
\<close>

record LinkPoller =
  linkInfo :: LinkInfo
  endpoint :: string
  lp_apiKey :: "string option"
  callbacks :: LinkCallbacks
  adaptive :: AdaptivePoller
  isRunning :: bool
  timeoutId :: "nat option"
  lp_debug :: bool
  clientId :: string
  lastSeenTimestamp :: "int option"
  timers :: "(nat \<times> rat) list"
  timerSeq :: nat
  inflight :: nat

text \<open>
  The constructor. \<open>cid\<close> is the result of \<^verbatim>\<open>generateClientId()\<close>. The
  \<^verbatim>\<open>interval\<close> of the options is not read: the controller is built from the link's
  token and type only.
\<close>

definition new_LinkPoller :: "LinkInfo \<Rightarrow> PollerOptions \<Rightarrow> string \<Rightarrow> LinkPoller" where
  "new_LinkPoller li opts cid =
     \<lparr> linkInfo = li,
       endpoint = po_endpoint opts,
       lp_apiKey = po_apiKey opts,
       callbacks = po_callbacks opts,
       adaptive = new_AdaptivePoller (token li) (linkType li)
                    (case po_debug opts of None \<Rightarrow> False | Some d \<Rightarrow> d),
       isRunning = False,
       timeoutId = None,
       lp_debug = (case po_debug opts of None \<Rightarrow> False | Some d \<Rightarrow> d),
       clientId = cid,
       lastSeenTimestamp = None,
       timers = [],
       timerSeq = 0,
       inflight = 0 \<rparr>"

definition clearTimeout :: "nat \<Rightarrow> (nat \<times> rat) list \<Rightarrow> (nat \<times> rat) list" where
  "clearTimeout h ts = filter (\<lambda>t. fst t \<noteq> h) ts"

definition stop :: "LinkPoller \<Rightarrow> LinkPoller" where
  "stop p =
     (if \<not> isRunning p then p
      else
        (let p1 = p\<lparr>isRunning := False\<rparr>
         in case timeoutId p1 of
              Some h \<Rightarrow> p1\<lparr>timers := clearTimeout h (timers p1), timeoutId := None\<rparr>
            | None \<Rightarrow> p1))"

definition scheduleNextPoll :: "LinkPoller \<Rightarrow> LinkPoller" where
  "scheduleNextPoll p =
     (if \<not> isRunning p then p
      else
        (let d = getInterval (adaptive p); h = Suc (timerSeq p)
         in p\<lparr>timeoutId := Some h, timers := timers p @ [(h, d)], timerSeq := h\<rparr>))"

definition pollRequest :: "int \<Rightarrow> LinkPoller \<Rightarrow> PollRequest" where
  "pollRequest now p =
     \<lparr> rq_token = token (linkInfo p),
       rq_type = linkType (linkInfo p),
       rq_password = password (linkInfo p),
       rq_clientId = clientId p,
       rq_timestamp = now,
       rq_lastSeen = lastSeenTimestamp p \<rparr>"

text \<open>
  \<^verbatim>\<open>poll()\<close> up to its \<^verbatim>\<open>await fetch(...)\<close>: nothing happens unless the poller is
  running; otherwise one request is sent.
\<close>

definition poll_begin :: "int \<Rightarrow> LinkPoller \<Rightarrow> LinkPoller \<times> event list" where
  "poll_begin now p =
     (if \<not> isRunning p then (p, [])
      else (p\<lparr>inflight := Suc (inflight p)\<rparr>, [Fetch (pollRequest now p)]))"

text \<open>An optional call \<^verbatim>\<open>cb?.(...)\<close>: the event it causes and whether it threw.\<close>

definition call :: "handler \<Rightarrow> event \<Rightarrow> event list \<times> bool" where
  "call h e = (case h of Absent \<Rightarrow> ([], False) | Returns \<Rightarrow> ([e], False) | Throws \<Rightarrow> ([e], True))"

definition terminal :: "LinkStatus \<Rightarrow> bool" where
  "terminal s = (s = Expired \<or> s = Deleted \<or> s = Exhausted)"

text \<open>
  The \<^verbatim>\<open>try\<close> block after a parsed response \<open>r\<close>, in the three callback steps of the
  source. Each step yields the events it caused and whether its callback threw.
  \<open>deliver\<close> is "handle new content": \<^verbatim>\<open>result.hasNewContent && result.payload\<close>.
\<close>

definition deliver :: "int \<Rightarrow> PollResponse \<Rightarrow> LinkPoller \<Rightarrow> LinkPoller \<times> event list \<times> bool" where
  "deliver now r p =
     (case payload r of
        Some pl \<Rightarrow>
          if hasNewContent r
          then (let (ev, t) = call (onPayload (callbacks p)) (OnPayload pl (linkInfo p))
                in (p\<lparr>lastSeenTimestamp := Some now\<rparr>, ev, t))
          else (p, [], False)
      | None \<Rightarrow> (p, [], False))"

text \<open>The callback of "handle link status changes".\<close>

definition status_change :: "PollResponse \<Rightarrow> LinkPoller \<Rightarrow> event list \<times> bool" where
  "status_change r p =
     (if linkStatus r \<noteq> Active
      then call (onStatusChange (callbacks p)) (OnStatusChange (linkStatus r) (linkInfo p))
      else ([], False))"

text \<open>"Handle errors from server": \<^verbatim>\<open>if (result.error)\<close> skips an empty string too.\<close>

definition server_error :: "PollResponse \<Rightarrow> LinkPoller \<Rightarrow> event list \<times> bool" where
  "server_error r p =
     (case error r of
        Some m \<Rightarrow>
          if m \<noteq> [] then call (onError (callbacks p)) (OnError (ServerError m) (linkInfo p))
          else ([], False)
      | None \<Rightarrow> ([], False))"

text \<open>
  The whole \<^verbatim>\<open>try\<close> block. The third component is the exception that left the
  block, if any.
\<close>

definition on_response ::
  "int \<Rightarrow> PollResponse \<Rightarrow> LinkPoller \<Rightarrow> LinkPoller \<times> event list \<times> js_error option" where
  "on_response now r p =
     (case deliver now r p of
        (p1, ev1, t1) \<Rightarrow>
          if t1 then (p1, ev1, Some HandlerError)
          else
            (case status_change r p1 of
               (ev2, t2) \<Rightarrow>
                 if t2 then (p1, ev1 @ ev2, Some HandlerError)
                 else if linkStatus r \<noteq> Active \<and> terminal (linkStatus r)
                 then (stop p1, ev1 @ ev2, None)
                 else
                   (case server_error r p1 of
                      (ev3, t3) \<Rightarrow>
                        if t3 then (p1, ev1 @ ev2 @ ev3, Some HandlerError)
                        else
                          (scheduleNextPoll
                             (p1\<lparr>adaptive :=
                                   adjustInterval (hasNewContent r) (nextPollIn r) (adaptive p1)\<rparr>),
                           ev1 @ ev2 @ ev3, None))))"

text \<open>
  The \<^verbatim>\<open>catch\<close> block for the exception \<open>e\<close>. The last component tells whether
  the block itself threw, that is, whether \<^verbatim>\<open>poll()\<close> rejects.
\<close>

definition on_failure :: "js_error \<Rightarrow> LinkPoller \<Rightarrow> LinkPoller \<times> event list \<times> bool" where
  "on_failure e p =
     (let (ev, t) = call (onError (callbacks p)) (OnError e (linkInfo p))
      in if t then (p, ev, True)
         else (scheduleNextPoll (p\<lparr>adaptive := adjustInterval False None (adaptive p)\<rparr>),
               ev, False))"

text \<open>\<^verbatim>\<open>poll()\<close> from the completion of its request on.\<close>

definition poll_resume ::
  "int \<Rightarrow> fetch_result \<Rightarrow> LinkPoller \<Rightarrow> LinkPoller \<times> event list \<times> bool" where
  "poll_resume now res p =
     (let p0 = p\<lparr>inflight := inflight p - 1\<rparr>
      in case res of
           Rejected m \<Rightarrow> on_failure (FetchError m) p0
         | Resolved resp \<Rightarrow>
             if \<not> ok resp then on_failure (HttpError (status resp) (statusText resp)) p0
             else
               (case json resp of
                  None \<Rightarrow> on_failure JsonError p0
                | Some r \<Rightarrow>
                    (case on_response now r p0 of
                       (p1, evs, Some e) \<Rightarrow>
                         (let (p2, evs2, t) = on_failure e p1 in (p2, evs @ evs2, t))
                     | (p1, evs, None) \<Rightarrow> (p1, evs, False))))"

text \<open>\<^verbatim>\<open>start()\<close> up to the first request.\<close>

definition start :: "int \<Rightarrow> LinkPoller \<Rightarrow> LinkPoller \<times> event list" where
  "start now p = (if isRunning p then (p, []) else poll_begin now (p\<lparr>isRunning := True\<rparr>))"

text \<open>The timer with handle \<open>h\<close> fires, if it is still pending, and runs \<^verbatim>\<open>poll()\<close>.\<close>

definition fire :: "nat \<Rightarrow> int \<Rightarrow> LinkPoller \<Rightarrow> LinkPoller \<times> event list" where
  "fire h now p =
     (if h \<in> fst ` set (timers p)
      then poll_begin now (p\<lparr>timers := clearTimeout h (timers p)\<rparr>)
      else (p, []))"

text \<open>
  The life of one poller as a sequence of things that happen to it: a call of
  \<^verbatim>\<open>start\<close> or \<^verbatim>\<open>stop\<close>, a timer firing, a pending request completing.
\<close>

datatype action = Start int | Stop | Fire nat int | Complete int fetch_result

fun step :: "action \<Rightarrow> LinkPoller \<Rightarrow> LinkPoller \<times> event list" where
  "step (Start now) p = start now p"
| "step Stop p = (stop p, [])"
| "step (Fire h now) p = fire h now p"
| "step (Complete now res) p =
     (if inflight p = 0 then (p, [])
      else (let (p1, evs, t) = poll_resume now res p in (p1, evs)))"

fun run :: "action list \<Rightarrow> LinkPoller \<Rightarrow> LinkPoller \<times> event list" where
  "run [] p = (p, [])"
| "run (a # as) p =
     (let (p1, e1) = step a p; (p2, e2) = run as p1 in (p2, e1 @ e2))"

fun is_Start :: "action \<Rightarrow> bool" where
  "is_Start (Start now) = True"
| "is_Start a = False"

fun is_Fetch :: "event \<Rightarrow> bool" where
  "is_Fetch (Fetch q) = True"
| "is_Fetch e = False"

fun is_OnStatusChange :: "event \<Rightarrow> bool" where
  "is_OnStatusChange (OnStatusChange s li) = True"
| "is_OnStatusChange e = False"

fun is_OnError :: "event \<Rightarrow> bool" where
  "is_OnError (OnError e li) = True"
| "is_OnError e = False"

text \<open>
  The ways a request fails, with the exception the \<^verbatim>\<open>try\<close> block raises for each:
  \<^verbatim>\<open>fetch\<close> rejects; the response is not \<^verbatim>\<open>ok\<close>; or the body is text that is not
  JSON or is \<^verbatim>\<open>null\<close>. These are all the responses on which \<^verbatim>\<open>poll()\<close> enters its
  \<^verbatim>\<open>catch\<close> block without a callback having thrown. A 2xx body that is JSON of the
  wrong shape is not among them: \<^verbatim>\<open>poll()\<close> reads it as a response.
\<close>

definition failure_of :: "fetch_result \<Rightarrow> js_error option" where
  "failure_of res =
     (case res of
        Rejected m \<Rightarrow> Some (FetchError m)
      | Resolved resp \<Rightarrow>
          if \<not> ok resp then Some (HttpError (status resp) (statusText resp))
          else if json resp = None then Some JsonError else None)"

definition demo_link :: LinkInfo where
  "demo_link = \<lparr> isValid = True, token = ''abc123def456ghi789'', linkType = Ping,
                  hasPassword = False, hasEncryption = False, domain = ''secret.annai.ai'',
                  password = None, encryptionKey = None \<rparr>"

definition demo_poller :: "LinkCallbacks \<Rightarrow> LinkPoller" where
  "demo_poller cb =
     new_LinkPoller demo_link
       \<lparr> po_endpoint = ''https://x/poll'', po_apiKey = None, interval = 10000,
         po_callbacks = cb, po_debug = None \<rparr> ''sdk-1-a''"

text \<open>The body \<^verbatim>\<open>{}\<close> as \<^verbatim>\<open>poll()\<close> reads it: every field missing.\<close>

definition empty_object :: PollResponse where
  "empty_object =
     \<lparr> hasNewContent = False, payload = None, nextPollIn = None, error = None,
       linkStatus = OtherStatus \<rparr>"

definition demo_response :: "LinkStatus \<Rightarrow> string option \<Rightarrow> fetch_result" where
  "demo_response s e =
     Resolved \<lparr> ok = True, status = 200, statusText = ''OK'',
                json = Some \<lparr> hasNewContent = False, payload = None, nextPollIn = None,
                              error = e, linkStatus = s \<rparr> \<rparr>"

text \<open>
  A poller's timers are tracked when every pending timer is the one \<^verbatim>\<open>timeoutId\<close> names
  and at most one timer or request is outstanding.
\<close>

definition tracked :: "LinkPoller \<Rightarrow> bool" where
  "tracked p \<longleftrightarrow>
     (\<forall>t \<in> set (timers p). timeoutId p = Some (fst t)) \<and> inflight p + length (timers p) \<le> 1"

section \<open>Link parsing (utils.ts)\<close>

text \<open>
  The value handed to \<^verbatim>\<open>parseLink\<close> at run time: a string, or anything else
  (\<^verbatim>\<open>undefined\<close>, \<^verbatim>\<open>null\<close>, a number, an object).
\<close>

datatype js_arg = Str string | NonString

text \<open>
  The two patterns of \<^verbatim>\<open>LINK_PATTERNS\<close> are matched against the whole string
  (\<^verbatim>\<open>^...$\<close>, no flags). Both end in
  \<^verbatim>\<open>([a-zA-Z0-9_-]{16,64})(\?.*)?(#.*)?$\<close>. What follows the token is either nothing, or
  a \<^verbatim>\<open>?\<close> or \<^verbatim>\<open>#\<close> and then characters matched by \<^verbatim>\<open>.\<close>, that is, no line
  terminator. Since neither \<^verbatim>\<open>?\<close> nor \<^verbatim>\<open>#\<close> is a token character, the token is the
  longest run of token characters at its position, and that run must have 16 to 64
  characters. Characters are 8-bit here, so of the line terminators only line feed and
  carriage return occur.
\<close>

definition is_token_char :: "char \<Rightarrow> bool" where
  "is_token_char c \<longleftrightarrow>
     c \<in> set ''abcdefghijklmnopqrstuvwxyzABCDEFGHIJKLMNOPQRSTUVWXYZ0123456789_-''"

definition line_terminator :: "char \<Rightarrow> bool" where
  "line_terminator c \<longleftrightarrow> c = CHR 0x0A \<or> c = CHR 0x0D"

definition match_tail :: "string \<Rightarrow> bool" where
  "match_tail r =
     (case r of
        [] \<Rightarrow> True
      | c # cs \<Rightarrow> (c = CHR ''?'' \<or> c = CHR ''#'') \<and> \<not> list_ex line_terminator cs)"

definition match_token :: "string \<Rightarrow> string option" where
  "match_token s =
     (let tok = takeWhile is_token_char s; rest = dropWhile is_token_char s
      in if 16 \<le> length tok \<and> length tok \<le> 64 \<and> match_tail rest then Some tok else None)"

definition strip_prefix :: "string \<Rightarrow> string \<Rightarrow> string option" where
  "strip_prefix pre s = (if take (length pre) s = pre then Some (drop (length pre) s) else None)"

text \<open>\<^verbatim>\<open>/^https:\/\/secret\.annai\.ai\/link\/([a-zA-Z0-9_-]{16,64})(\?.*)?(#.*)?$/\<close>: the token.\<close>

definition match_secretLinks :: "string \<Rightarrow> string option" where
  "match_secretLinks url =
     (case strip_prefix ''https://secret.annai.ai/link/'' url of
        None \<Rightarrow> None
      | Some rest \<Rightarrow> match_token rest)"

text \<open>
  \<^verbatim>\<open>/^https:\/\/([^\/]+)\/link\/([a-zA-Z0-9_-]{16,64})(\?.*)?(#.*)?$/\<close>: domain and token.
  The domain group cannot contain a slash and must be followed by one, so it is the
  non-empty text up to the first slash.
\<close>

definition match_customDomain :: "string \<Rightarrow> (string \<times> string) option" where
  "match_customDomain url =
     (case strip_prefix ''https://'' url of
        None \<Rightarrow> None
      | Some rest \<Rightarrow>
          (let host = takeWhile (\<lambda>c. c \<noteq> CHR ''/'') rest;
               after = dropWhile (\<lambda>c. c \<noteq> CHR ''/'') rest
           in if host = [] then None
              else
                (case strip_prefix ''/link/'' after of
                   None \<Rightarrow> None
                 | Some r \<Rightarrow>
                     (case match_token r of None \<Rightarrow> None | Some tok \<Rightarrow> Some (host, tok)))))"

text \<open>
  The platform's \<^verbatim>\<open>URL\<close> class is not part of the repository. It enters as a
  parameter \<open>new_URL\<close>: the constructor applied to a string yields the parts
  \<^verbatim>\<open>parseLink\<close> reads, or \<open>None\<close> when the constructor throws its \<^verbatim>\<open>TypeError\<close>.
\<close>

record URL =
  searchParams :: "(string \<times> string) list"
  hash :: string

definition detectLinkType :: "string \<Rightarrow> link_type" where
  "detectLinkType tok = (if length tok \<le> 24 then Ping else Webhook)"

definition invalid_link :: LinkInfo where
  "invalid_link =
     \<lparr> isValid = False, token = [], linkType = Ping, hasPassword = False,
       hasEncryption = False, domain = [], password = None, encryptionKey = None \<rparr>"

definition parseLink :: "(string \<Rightarrow> URL option) \<Rightarrow> js_arg \<Rightarrow> js_error + LinkInfo" where
  "parseLink new_URL arg =
     (case arg of
        NonString \<Rightarrow> Inr invalid_link
      | Str url \<Rightarrow>
          if url = [] then Inr invalid_link
          else
            (let m = (case match_secretLinks url of
                        Some tok \<Rightarrow> Some (''secret.annai.ai'', tok)
                      | None \<Rightarrow> match_customDomain url)
             in case m of
                  None \<Rightarrow> Inr invalid_link
                | Some (host, tok) \<Rightarrow>
                    if tok = [] then Inr invalid_link
                    else
                      (case new_URL url of
                         None \<Rightarrow> Inl UrlTypeError
                       | Some u \<Rightarrow>
                           (let hasPw = (''password'' \<in> fst ` set (searchParams u));
                                hasEnc = (length (hash u) > 1);
                                pw = (if hasPw
                                      then (case map_of (searchParams u) ''password'' of
                                              Some v \<Rightarrow> if v = [] then None else Some v
                                            | None \<Rightarrow> None)
                                      else None);
                                key = (if hasEnc then Some (drop 1 (hash u)) else None)
                            in Inr \<lparr> isValid = True, token = tok, linkType = detectLinkType tok,
                                     hasPassword = hasPw, hasEncryption = hasEnc, domain = host,
                                     password = pw, encryptionKey = key \<rparr>))))"


section \<open>Listener registry (secret-links-sdk.ts)\<close>

record ValidationOptions =
  allowedDomains :: "string list option"
  allowedLinkTypes :: "link_type list option"
  requirePassword :: "bool option"

record SDKOptions =
  o_pollingEndpoint :: "string option"
  o_apiKey :: "string option"
  pingInterval :: "rat option"
  webhookInterval :: "rat option"
  o_onError :: handler
  o_debug :: "bool option"
  o_validation :: "ValidationOptions option"

record Intervals =
  ping :: rat
  webhook :: rat

record SecretLinksSDK =
  pollingEndpoint :: string
  apiKey :: "string option"
  intervals :: Intervals
  activeListeners :: "(string \<times> LinkPoller) list"
  sdk_onError :: handler
  debug :: bool
  validation :: "ValidationOptions option"
  listenerCounter :: nat

text \<open>\<^verbatim>\<open>validateSDKOptions\<close>: the error it throws, if any.\<close>

definition validateSDKOptions :: "(string \<Rightarrow> URL option) \<Rightarrow> SDKOptions \<Rightarrow> js_error option" where
  "validateSDKOptions new_URL opts =
     (case o_pollingEndpoint opts of
        None \<Rightarrow> Some (OptionsError ''pollingEndpoint is required in SDK options'')
      | Some ep \<Rightarrow>
          if ep = [] then Some (OptionsError ''pollingEndpoint is required in SDK options'')
          else if new_URL ep = None then Some (OptionsError ''pollingEndpoint must be a valid URL'')
          else if (case pingInterval opts of Some x \<Rightarrow> x < 1000 | None \<Rightarrow> False)
          then Some (OptionsError ''pingInterval must be a number >= 1000 (1 second)'')
          else if (case webhookInterval opts of Some x \<Rightarrow> x < 1000 | None \<Rightarrow> False)
          then Some (OptionsError ''webhookInterval must be a number >= 1000 (1 second)'')
          else None)"

text \<open>\<^verbatim>\<open>x || d\<close> on an optional number: a missing or zero \<open>x\<close> gives the default.\<close>

definition or_default :: "rat option \<Rightarrow> rat \<Rightarrow> rat" where
  "or_default x d = (case x of Some v \<Rightarrow> if v = 0 then d else v | None \<Rightarrow> d)"

text \<open>
  The constructor. An absent \<^verbatim>\<open>onError\<close> option is replaced by the handler that logs
  with \<^verbatim>\<open>console.error\<close>, which returns.
\<close>

definition new_SecretLinksSDK ::
  "(string \<Rightarrow> URL option) \<Rightarrow> SDKOptions \<Rightarrow> js_error + SecretLinksSDK" where
  "new_SecretLinksSDK new_URL opts =
     (case validateSDKOptions new_URL opts of
        Some e \<Rightarrow> Inl e
      | None \<Rightarrow>
          Inr \<lparr> pollingEndpoint = (case o_pollingEndpoint opts of Some ep \<Rightarrow> ep | None \<Rightarrow> []),
                apiKey = o_apiKey opts,
                intervals = \<lparr> ping = or_default (pingInterval opts) 10000,
                              webhook = or_default (webhookInterval opts) 60000 \<rparr>,
                activeListeners = [],
                sdk_onError = (if o_onError opts = Absent then Returns else o_onError opts),
                debug = (case o_debug opts of Some d \<Rightarrow> d | None \<Rightarrow> False),
                validation = o_validation opts,
                listenerCounter = 0 \<rparr>)"

fun join :: "string \<Rightarrow> string list \<Rightarrow> string" where
  "join sep [] = []"
| "join sep [x] = x"
| "join sep (x # y # ys) = x @ sep @ join sep (y # ys)"

definition show_link_type :: "link_type \<Rightarrow> string" where
  "show_link_type t = (case t of Ping \<Rightarrow> ''ping'' | Webhook \<Rightarrow> ''webhook'')"

text \<open>\<^verbatim>\<open>applyValidationRules\<close>: the message of the first rule that fails, if any.\<close>

definition applyValidationRules :: "SecretLinksSDK \<Rightarrow> LinkInfo \<Rightarrow> string option" where
  "applyValidationRules sdk li =
     (case validation sdk of
        None \<Rightarrow> None
      | Some v \<Rightarrow>
          if (case allowedDomains v of
                Some ds \<Rightarrow> length ds > 0 \<and> domain li \<notin> set ds
              | None \<Rightarrow> False)
          then Some (''Domain '' @ domain li @ '' is not allowed. Allowed domains: '' @
                     join '', '' (case allowedDomains v of Some ds \<Rightarrow> ds | None \<Rightarrow> []))
          else if (case allowedLinkTypes v of
                     Some ts \<Rightarrow> length ts > 0 \<and> linkType li \<notin> set ts
                   | None \<Rightarrow> False)
          then Some (''Link type '' @ show_link_type (linkType li) @
                     '' is not allowed. Allowed types: '' @
                     join '', '' (map show_link_type
                       (case allowedLinkTypes v of Some ts \<Rightarrow> ts | None \<Rightarrow> [])))
          else if (case requirePassword v of Some b \<Rightarrow> b | None \<Rightarrow> False) \<and> \<not> hasPassword li
          then Some ''Password-protected links are required''
          else None)"

definition validateLink ::
  "(string \<Rightarrow> URL option) \<Rightarrow> SecretLinksSDK \<Rightarrow> js_arg \<Rightarrow> js_error + LinkInfo" where
  "validateLink new_URL sdk arg =
     (case parseLink new_URL arg of
        Inl e \<Rightarrow> Inl e
      | Inr li \<Rightarrow>
          if \<not> isValid li then Inr li
          else
            (case applyValidationRules sdk li of
               Some msg \<Rightarrow> if msg \<noteq> [] then Inr (li\<lparr>isValid := False\<rparr>) else Inr li
             | None \<Rightarrow> Inr li))"

text \<open>Decimal rendering of the numbers in a template string.\<close>

definition digit :: "nat \<Rightarrow> char" where
  "digit d = ''0123456789'' ! d"

fun show_nat :: "nat \<Rightarrow> string" where
  "show_nat n =
     (if n < 10 then [digit n]
      else show_nat (n div 10) @ [digit (n mod 10)])"

declare show_nat.simps [simp del]

definition show_int :: "int \<Rightarrow> string" where
  "show_int i = (if i < 0 then CHR ''-'' # show_nat (nat (- i)) else show_nat (nat i))"

text \<open>\<^verbatim>\<open>`listener-${Date.now()}-${this.listenerCounter}`\<close>\<close>

definition listenerId :: "int \<Rightarrow> nat \<Rightarrow> string" where
  "listenerId now c = ''listener-'' @ show_int now @ ''-'' @ show_nat c"

text \<open>
  \<^verbatim>\<open>startListening\<close>. Besides the URL and the callbacks it takes what the environment
  contributes to the call: \<open>now\<close>, the clock reading that goes into the identifier;
  \<open>cid\<close>, the generated client id; \<open>t0\<close>, the clock reading of the first poll; and
  \<open>res\<close>, the outcome of the first request, which \<^verbatim>\<open>await poller.start()\<close> waits
  for. The result is the rejection or the identifier, the registry afterwards, and the
  events of the first cycle.
\<close>

definition startListening ::
  "(string \<Rightarrow> URL option) \<Rightarrow> js_arg \<Rightarrow> LinkCallbacks \<Rightarrow> int \<Rightarrow> string \<Rightarrow> int \<Rightarrow> fetch_result \<Rightarrow>
   SecretLinksSDK \<Rightarrow> (js_error + string) \<times> SecretLinksSDK \<times> event list" where
  "startListening new_URL arg cbs now cid t0 res sdk =
     (case validateLink new_URL sdk arg of
        Inl e \<Rightarrow> (Inl e, sdk, [])
      | Inr li \<Rightarrow>
          if \<not> isValid li then (Inl InvalidLink, sdk, [])
          else
            (let sdk1 = sdk\<lparr>listenerCounter := Suc (listenerCounter sdk)\<rparr>;
                 lid = listenerId now (listenerCounter sdk1);
                 own = (case linkType li of
                          Ping \<Rightarrow> ping (intervals sdk1)
                        | Webhook \<Rightarrow> webhook (intervals sdk1));
                 poller = new_LinkPoller li
                   \<lparr> po_endpoint = pollingEndpoint sdk1,
                     po_apiKey = apiKey sdk1,
                     interval = (if own = 0 then ping (intervals sdk1) else own),
                     po_callbacks =
                       \<lparr> onPayload = onPayload cbs,
                         onError = (if onError cbs = Absent then sdk_onError sdk1 else onError cbs),
                         onStatusChange = onStatusChange cbs \<rparr>,
                     po_debug = Some (debug sdk1) \<rparr> cid;
                 sdk2 = sdk1\<lparr>activeListeners := AList.update lid poller (activeListeners sdk1)\<rparr>;
                 fst_req = start t0 poller;
                 cycle = poll_resume t0 res (fst fst_req);
                 evs = snd fst_req @ fst (snd cycle)
             in if snd (snd cycle)
                then (Inl HandlerError,
                      sdk2\<lparr>activeListeners := AList.delete lid (activeListeners sdk2)\<rparr>, evs)
                else (Inr lid,
                      sdk2\<lparr>activeListeners := AList.update lid (fst cycle) (activeListeners sdk2)\<rparr>,
                      evs)))"

text \<open>
  \<^verbatim>\<open>stopListening\<close>: the registry afterwards and the poller that was stopped, if the
  identifier was known.
\<close>

definition stopListening :: "string \<Rightarrow> SecretLinksSDK \<Rightarrow> SecretLinksSDK \<times> LinkPoller option" where
  "stopListening lid sdk =
     (case map_of (activeListeners sdk) lid of
        None \<Rightarrow> (sdk, None)
      | Some poller \<Rightarrow>
          (sdk\<lparr>activeListeners := AList.delete lid (activeListeners sdk)\<rparr>, Some (stop poller)))"

text \<open>\<^verbatim>\<open>stopAll\<close>: the registry afterwards and the pollers it stopped.\<close>

definition stopAll :: "SecretLinksSDK \<Rightarrow> SecretLinksSDK \<times> LinkPoller list" where
  "stopAll sdk = (sdk\<lparr>activeListeners := []\<rparr>, map (\<lambda>e. stop (snd e)) (activeListeners sdk))"

definition getActiveListenerCount :: "SecretLinksSDK \<Rightarrow> nat" where
  "getActiveListenerCount sdk = length (activeListeners sdk)"

text \<open>
  The life of a registry: calls of its operations, and things that happen to a poller it
  tracks (its timer fires, its request completes), which is how a poller comes to stop
  by itself.
\<close>

datatype sdk_op =
    StartListening js_arg LinkCallbacks int string int fetch_result
  | StopListening string
  | StopAll
  | Poller string action

text \<open>One operation: the registry afterwards and the identifier handed out, if any.\<close>

fun sdk_step ::
  "(string \<Rightarrow> URL option) \<Rightarrow> sdk_op \<Rightarrow> SecretLinksSDK \<Rightarrow> SecretLinksSDK \<times> string list" where
  "sdk_step new_URL (StartListening arg cbs now cid t0 res) sdk =
     (case startListening new_URL arg cbs now cid t0 res sdk of
        (Inr lid, sdk1, evs) \<Rightarrow> (sdk1, [lid])
      | (Inl e, sdk1, evs) \<Rightarrow> (sdk1, []))"
| "sdk_step new_URL (StopListening lid) sdk = (fst (stopListening lid sdk), [])"
| "sdk_step new_URL StopAll sdk = (fst (stopAll sdk), [])"
| "sdk_step new_URL (Poller lid a) sdk =
     (case map_of (activeListeners sdk) lid of
        None \<Rightarrow> (sdk, [])
      | Some poller \<Rightarrow>
          (sdk\<lparr>activeListeners := AList.update lid (fst (step a poller)) (activeListeners sdk)\<rparr>,
           []))"

fun sdk_run ::
  "(string \<Rightarrow> URL option) \<Rightarrow> sdk_op list \<Rightarrow> SecretLinksSDK \<Rightarrow> SecretLinksSDK \<times> string list" where
  "sdk_run new_URL [] sdk = (sdk, [])"
| "sdk_run new_URL (x # xs) sdk =
     (let (sdk1, ids1) = sdk_step new_URL x sdk; (sdk2, ids2) = sdk_run new_URL xs sdk1
      in (sdk2, ids1 @ ids2))"

text \<open>Reading the counter back from an identifier: the digits after its last hyphen.\<close>

definition read_nat :: "string \<Rightarrow> nat" where
  "read_nat s = foldl (\<lambda>a c. 10 * a + (of_char c - 48)) 0 s"

definition counter_of :: "string \<Rightarrow> nat" where
  "counter_of s = read_nat (rev (takeWhile (\<lambda>c. c \<noteq> CHR ''-'') (rev s)))"

text \<open>The identifiers in the table.\<close>

definition keys :: "SecretLinksSDK \<Rightarrow> string set" where
  "keys sdk = fst ` set (activeListeners sdk)"

text \<open>Example values.\<close>

definition any_URL :: "string \<Rightarrow> URL option" where
  "any_URL u = Some \<lparr> searchParams = [], hash = [] \<rparr>"

definition demo_options :: SDKOptions where
  "demo_options =
     \<lparr> o_pollingEndpoint = Some ''https://x/poll'', o_apiKey = None, pingInterval = None,
       webhookInterval = None, o_onError = Absent, o_debug = None, o_validation = None \<rparr>"

definition no_callbacks :: LinkCallbacks where
  "no_callbacks = \<lparr> onPayload = Absent, onError = Absent, onStatusChange = Absent \<rparr>"

definition demo_sdk :: SecretLinksSDK where
  "demo_sdk =
     \<lparr> pollingEndpoint = ''https://x/poll'', apiKey = None,
       intervals = \<lparr> ping = 10000, webhook = 60000 \<rparr>, activeListeners = [],
       sdk_onError = Returns, debug = False, validation = None, listenerCounter = 0 \<rparr>"

definition demo_url :: string where
  "demo_url = ''https://secret.annai.ai/link/abc123def456ghi789''"

section \<open>Properties of the interval controller\<close>

lemma adjust_hint: "0 < s \<Longrightarrow> adjustInterval h (Some s) a = a\<lparr>currentInterval := max s 1000\<rparr>"
  by (simp add: adjustInterval_def)

lemma adjust_content: "adjustInterval True None a = reset a"
  by (simp add: adjustInterval_def reset_def)

lemma adjust_empty:
  "adjustInterval False None a =
     (if Suc (consecutiveEmpty a) \<ge> 3
      then a\<lparr>consecutiveEmpty := Suc (consecutiveEmpty a),
             currentInterval := min (currentInterval a * backoffMultiplier a) (maxInterval a)\<rparr>
      else a\<lparr>consecutiveEmpty := Suc (consecutiveEmpty a)\<rparr>)"
  by (simp add: adjustInterval_def Let_def)

text \<open>
  Claim C2. From a controller whose empty-cycle count is 0 and whose current interval is
  the base interval (backoff factor 1.5, ceiling 300000), the first two
  \<^verbatim>\<open>adjustInterval(false)\<close> calls leave the interval at the base value and the third
  sets it to the base times 1.5, capped at 300000; and \<^verbatim>\<open>adjustInterval(true)\<close> without
  a server hint resets any controller \<open>b\<close> to its base interval with a zero count.
\<close>

theorem C2_three_empty_cycles_then_backoff:
  assumes "consecutiveEmpty a = 0"
    and "currentInterval a = baseInterval a"
    and "backoffMultiplier a = 3 / 2"
    and "maxInterval a = 300000"
  shows "currentInterval (adjustInterval False None a) = baseInterval a
       \<and> currentInterval (adjustInterval False None (adjustInterval False None a)) = baseInterval a
       \<and> currentInterval (adjustInterval False None
            (adjustInterval False None (adjustInterval False None a)))
          = min (baseInterval a * (3 / 2)) 300000
       \<and> currentInterval (adjustInterval True None b) = baseInterval b
       \<and> consecutiveEmpty (adjustInterval True None b) = 0"
proof -
  let ?a1 = "adjustInterval False None a"
  let ?a2 = "adjustInterval False None ?a1"
  have a1: "?a1 = a\<lparr>consecutiveEmpty := 1\<rparr>"
    using assms(1) by (simp add: adjust_empty)
  have a2: "?a2 = a\<lparr>consecutiveEmpty := 2\<rparr>"
    unfolding a1 by (simp add: adjust_empty)
  have a3: "currentInterval (adjustInterval False None ?a2)
              = min (currentInterval a * backoffMultiplier a) (maxInterval a)"
    unfolding a2 by (simp add: adjust_empty)
  have c1: "currentInterval ?a1 = baseInterval a"
    unfolding a1 using assms(2) by simp
  have c2: "currentInterval ?a2 = baseInterval a"
    unfolding a2 using assms(2) by simp
  have c3: "currentInterval (adjustInterval False None ?a2) = min (baseInterval a * (3 / 2)) 300000"
    unfolding a3 assms(2,3,4) by (rule refl)
  have c4: "currentInterval (adjustInterval True None b) = baseInterval b"
    and c5: "consecutiveEmpty (adjustInterval True None b) = 0"
    by (simp_all add: adjust_content reset_def)
  from c1 c2 c3 c4 c5 show ?thesis
    by (intro conjI)
qed

theorem C2_witness:
  "consecutiveEmpty (new_AdaptivePoller ''tok'' Ping False) = 0
   \<and> currentInterval (new_AdaptivePoller ''tok'' Ping False) = 10000
   \<and> currentInterval (adjustInterval False None (new_AdaptivePoller ''tok'' Ping False)) = 10000
   \<and> currentInterval (adjustInterval False None
        (adjustInterval False None (new_AdaptivePoller ''tok'' Ping False))) = 10000
   \<and> currentInterval (adjustInterval False None (adjustInterval False None
        (adjustInterval False None (new_AdaptivePoller ''tok'' Ping False)))) = 15000
   \<and> currentInterval (adjustInterval True None
        (new_AdaptivePoller ''tok'' Webhook False\<lparr>currentInterval := 7, consecutiveEmpty := 9\<rparr>))
      = 60000"
  using C2_three_empty_cycles_then_backoff
    [of "new_AdaptivePoller ''tok'' Ping False"
        "new_AdaptivePoller ''tok'' Webhook False\<lparr>currentInterval := 7, consecutiveEmpty := 9\<rparr>"]
  by (simp add: new_AdaptivePoller_def)

text \<open>
  Claim C5. A positive server hint \<open>s\<close> sets the current interval to \<open>max s 1000\<close>
  whatever \<open>hasNewContent\<close> is, and changes no other field of the controller (in
  particular not the empty-cycle count).
\<close>

theorem C5_server_hint_wins:
  assumes "0 < s"
  shows "adjustInterval h (Some s) a = a\<lparr>currentInterval := max s 1000\<rparr>
       \<and> currentInterval (adjustInterval h (Some s) a) = max s 1000
       \<and> consecutiveEmpty (adjustInterval h (Some s) a) = consecutiveEmpty a
       \<and> baseInterval (adjustInterval h (Some s) a) = baseInterval a"
  using assms by (simp add: adjust_hint)

theorem C5_witness:
  "(0::rat) < 250
   \<and> currentInterval (adjustInterval True (Some 250)
        (new_AdaptivePoller ''tok'' Ping False\<lparr>consecutiveEmpty := 2\<rparr>)) = 1000
   \<and> consecutiveEmpty (adjustInterval True (Some 250)
        (new_AdaptivePoller ''tok'' Ping False\<lparr>consecutiveEmpty := 2\<rparr>)) = 2
   \<and> currentInterval (adjustInterval False (Some 45000)
        (new_AdaptivePoller ''tok'' Ping False\<lparr>consecutiveEmpty := 2\<rparr>)) = 45000"
  using C5_server_hint_wins [of 250 True "new_AdaptivePoller ''tok'' Ping False\<lparr>consecutiveEmpty := 2\<rparr>"]
    C5_server_hint_wins [of 45000 False "new_AdaptivePoller ''tok'' Ping False\<lparr>consecutiveEmpty := 2\<rparr>"]
  by (simp add: new_AdaptivePoller_def)

section \<open>Properties of the link poller\<close>

lemma call_no_fetch: "\<not> is_Fetch e \<Longrightarrow> filter is_Fetch (fst (call h e)) = []"
  by (cases h) (simp_all add: call_def)

lemma stop_not_running: "\<not> isRunning (stop p)"
  by (simp add: stop_def Let_def split: option.split)

lemma stop_idle: "\<not> isRunning p \<Longrightarrow> stop p = p"
  by (simp add: stop_def)

lemma schedule_idle: "\<not> isRunning p \<Longrightarrow> scheduleNextPoll p = p"
  by (simp add: scheduleNextPoll_def)

lemma schedule_running: "isRunning (scheduleNextPoll p) = isRunning p"
  by (simp add: scheduleNextPoll_def Let_def)

lemma on_failure_proj:
  "on_failure e p =
     (if snd (call (onError (callbacks p)) (OnError e (linkInfo p)))
      then (p, fst (call (onError (callbacks p)) (OnError e (linkInfo p))), True)
      else (scheduleNextPoll (p\<lparr>adaptive := adjustInterval False None (adaptive p)\<rparr>),
            fst (call (onError (callbacks p)) (OnError e (linkInfo p))), False))"
  by (simp add: on_failure_def split: prod.split)

lemma on_response_proj:
  "on_response now r p =
     (let d = deliver now r p; p1 = fst d; ev1 = fst (snd d);
          s = status_change r p1; e = server_error r p1
      in if snd (snd d) then (p1, ev1, Some HandlerError)
         else if snd s then (p1, ev1 @ fst s, Some HandlerError)
         else if linkStatus r \<noteq> Active \<and> terminal (linkStatus r) then (stop p1, ev1 @ fst s, None)
         else if snd e then (p1, ev1 @ fst s @ fst e, Some HandlerError)
         else (scheduleNextPoll
                 (p1\<lparr>adaptive := adjustInterval (hasNewContent r) (nextPollIn r) (adaptive p1)\<rparr>),
               ev1 @ fst s @ fst e, None))"
  by (simp add: on_response_def Let_def split: prod.split)

lemma poll_resume_proj:
  "poll_resume now res p =
     (let p0 = p\<lparr>inflight := inflight p - 1\<rparr>
      in case res of
           Rejected m \<Rightarrow> on_failure (FetchError m) p0
         | Resolved resp \<Rightarrow>
             if \<not> ok resp then on_failure (HttpError (status resp) (statusText resp)) p0
             else
               (case json resp of
                  None \<Rightarrow> on_failure JsonError p0
                | Some r \<Rightarrow>
                    (let q = on_response now r p0
                     in case snd (snd q) of
                          Some e \<Rightarrow>
                            (let f = on_failure e (fst q)
                             in (fst f, fst (snd q) @ fst (snd f), snd (snd f)))
                        | None \<Rightarrow> (fst q, fst (snd q), False))))"
  by (simp add: poll_resume_def Let_def split: fetch_result.split option.split prod.split)

lemma deliver_fields:
  "isRunning (fst (deliver now r p)) = isRunning p"
  "timers (fst (deliver now r p)) = timers p"
  "timeoutId (fst (deliver now r p)) = timeoutId p"
  "adaptive (fst (deliver now r p)) = adaptive p"
  "callbacks (fst (deliver now r p)) = callbacks p"
  "linkInfo (fst (deliver now r p)) = linkInfo p"
  "inflight (fst (deliver now r p)) = inflight p"
  "timerSeq (fst (deliver now r p)) = timerSeq p"
  by (simp_all add: deliver_def split: option.split prod.split)

lemma deliver_no_fetch: "filter is_Fetch (fst (snd (deliver now r p))) = []"
  by (simp add: deliver_def call_no_fetch split: option.split prod.split)

lemma status_change_no_fetch: "filter is_Fetch (fst (status_change r p)) = []"
  by (simp add: status_change_def call_no_fetch)

lemma server_error_no_fetch: "filter is_Fetch (fst (server_error r p)) = []"
  by (simp add: server_error_def call_no_fetch split: option.split)

lemma on_failure_idle:
  assumes "\<not> isRunning p"
  shows "\<not> isRunning (fst (on_failure e p))"
    and "timers (fst (on_failure e p)) = timers p"
  using assms by (simp_all add: on_failure_proj schedule_idle)

lemma on_failure_no_fetch: "filter is_Fetch (fst (snd (on_failure e p))) = []"
  by (simp add: on_failure_proj call_no_fetch)

lemma on_response_idle:
  assumes "\<not> isRunning p"
  shows "\<not> isRunning (fst (on_response now r p))"
    and "timers (fst (on_response now r p)) = timers p"
  using assms
  by (simp_all add: on_response_proj Let_def deliver_fields stop_idle schedule_idle)

lemma on_response_no_fetch: "filter is_Fetch (fst (snd (on_response now r p))) = []"
  by (simp add: on_response_proj Let_def deliver_no_fetch status_change_no_fetch
      server_error_no_fetch)

lemma poll_resume_idle:
  assumes "\<not> isRunning p"
  shows "\<not> isRunning (fst (poll_resume now res p))"
    and "timers (fst (poll_resume now res p)) = timers p"
  using assms
  by (simp_all add: poll_resume_proj Let_def on_failure_idle on_response_idle
      split: fetch_result.split option.split)

lemma poll_resume_no_fetch: "filter is_Fetch (fst (snd (poll_resume now res p))) = []"
  by (simp add: poll_resume_proj Let_def on_failure_no_fetch on_response_no_fetch
      split: fetch_result.split option.split)

lemma clearTimeout_subset: "set (clearTimeout h ts) \<subseteq> set ts"
  by (auto simp add: clearTimeout_def)

lemma step_idle:
  assumes "\<not> isRunning p" and "\<not> is_Start a"
  shows "\<not> isRunning (fst (step a p))"
    and "set (timers (fst (step a p))) \<subseteq> set (timers p)"
    and "filter is_Fetch (snd (step a p)) = []"
proof -
  show "\<not> isRunning (fst (step a p))"
    using assms poll_resume_idle(1) [OF assms(1)]
    by (cases a) (simp_all add: stop_idle fire_def poll_begin_def split_beta)
  show "set (timers (fst (step a p))) \<subseteq> set (timers p)"
    using assms poll_resume_idle(2) [OF assms(1)] clearTimeout_subset
    by (cases a) (simp_all add: stop_idle fire_def poll_begin_def split_beta)
  show "filter is_Fetch (snd (step a p)) = []"
    using assms poll_resume_no_fetch
    by (cases a) (simp_all add: stop_idle fire_def poll_begin_def split_beta)
qed

lemma run_idle:
  assumes "\<not> isRunning p" and "\<not> list_ex is_Start acts"
  shows "\<not> isRunning (fst (run acts p))
       \<and> set (timers (fst (run acts p))) \<subseteq> set (timers p)
       \<and> filter is_Fetch (snd (run acts p)) = []"
  using assms
proof (induction acts arbitrary: p)
  case Nil
  then show ?case by simp
next
  case (Cons a acts)
  from Cons.prems have a: "\<not> is_Start a" and rest: "\<not> list_ex is_Start acts"
    by simp_all
  note s = step_idle [OF Cons.prems(1) a]
  note ih = Cons.IH [OF s(1) rest]
  show ?case
    using s ih by (auto simp add: split_beta)
qed

lemma deliver_quiet:
  assumes "onPayload (callbacks p) \<noteq> Throws"
  shows "\<not> snd (snd (deliver now r p))"
    and "filter is_OnStatusChange (fst (snd (deliver now r p))) = []"
    and "filter is_OnError (fst (snd (deliver now r p))) = []"
  using assms
  by (cases "onPayload (callbacks p)"; simp add: deliver_def call_def split: option.split)+

lemma status_change_terminal:
  assumes "terminal (linkStatus r)" and "onStatusChange (callbacks p) \<noteq> Throws"
  shows "status_change r p =
           (if onStatusChange (callbacks p) = Absent then []
            else [OnStatusChange (linkStatus r) (linkInfo p)], False)"
  using assms
  by (cases "onStatusChange (callbacks p)") (auto simp add: status_change_def call_def terminal_def)

lemma on_response_terminal:
  assumes "terminal (linkStatus r)"
    and "onPayload (callbacks p) \<noteq> Throws"
    and "onStatusChange (callbacks p) \<noteq> Throws"
  shows "on_response now r p =
           (stop (fst (deliver now r p)),
            fst (snd (deliver now r p)) @
              (if onStatusChange (callbacks p) = Absent then []
               else [OnStatusChange (linkStatus r) (linkInfo p)]),
            None)"
proof -
  have na: "linkStatus r \<noteq> Active"
    using assms(1) by (auto simp add: terminal_def)
  have cb: "onStatusChange (callbacks (fst (deliver now r p))) \<noteq> Throws"
    using assms(3) by (simp add: deliver_fields)
  show ?thesis
    using deliver_quiet(1) [OF assms(2), of now r] assms(1) na
    by (simp add: on_response_proj Let_def status_change_terminal [OF assms(1) cb] deliver_fields)
qed

lemma stop_running:
  assumes "isRunning p" and "\<forall>t \<in> set (timers p). timeoutId p = Some (fst t)"
  shows "timers (stop p) = []" and "timeoutId (stop p) = None" and "adaptive (stop p) = adaptive p"
proof -
  show "timeoutId (stop p) = None" "adaptive (stop p) = adaptive p"
    using assms(1) by (simp_all add: stop_def Let_def split: option.split)
  show "timers (stop p) = []"
  proof (cases "timeoutId p")
    case None
    with assms(2) have "timers p = []"
      by (metis list.set_intros(1) neq_Nil_conv option.distinct(1))
    with assms(1) None show ?thesis by (simp add: stop_def)
  next
    case (Some h)
    with assms(2) have "\<forall>t \<in> set (timers p). fst t = h" by simp
    then have "clearTimeout h (timers p) = []"
      by (simp add: clearTimeout_def filter_empty_conv)
    with assms(1) Some show ?thesis by (simp add: stop_def)
  qed
qed

text \<open>
  Claim C1, as the code has it. A running poller receives a response whose link status is
  terminal (expired, exhausted or deleted), and the callbacks invoked in that cycle
  (\<^verbatim>\<open>onPayload\<close>, \<^verbatim>\<open>onStatusChange\<close>) return normally. Then \<^verbatim>\<open>onStatusChange\<close>, when
  registered, is invoked exactly once, with that status; \<^verbatim>\<open>poll()\<close> does not reject; the
  poller is no longer running, its timer handle is cleared and, all pending timers being
  the one the handle names, none is left; and whatever happens to the poller afterwards,
  short of a new call of \<^verbatim>\<open>start\<close>, sends no request, arms no timer and leaves it
  stopped.
\<close>

theorem C1_terminal_state_stops_poller:
  assumes "terminal (linkStatus r)"
    and "ok resp" and "json resp = Some r"
    and "isRunning p"
    and "onPayload (callbacks p) \<noteq> Throws"
    and "onStatusChange (callbacks p) \<noteq> Throws"
    and "\<forall>t \<in> set (timers p). timeoutId p = Some (fst t)"
    and "\<not> list_ex is_Start acts"
  shows "case poll_resume now (Resolved resp) p of
           (p', evs, threw) \<Rightarrow>
             filter is_OnStatusChange evs =
               (if onStatusChange (callbacks p) = Absent then []
                else [OnStatusChange (linkStatus r) (linkInfo p)])
           \<and> \<not> threw \<and> \<not> isRunning p' \<and> timeoutId p' = None \<and> timers p' = []
           \<and> filter is_Fetch (snd (run acts p')) = []
           \<and> \<not> isRunning (fst (run acts p'))
           \<and> timers (fst (run acts p')) = []"
proof -
  define p0 where "p0 = p\<lparr>inflight := inflight p - 1\<rparr>"
  have p0: "isRunning p0 = isRunning p" "callbacks p0 = callbacks p" "linkInfo p0 = linkInfo p"
    "timers p0 = timers p" "timeoutId p0 = timeoutId p"
    by (simp_all add: p0_def)
  let ?p1 = "fst (deliver now r p0)"
  let ?ev = "fst (snd (deliver now r p0)) @
               (if onStatusChange (callbacks p) = Absent then []
                else [OnStatusChange (linkStatus r) (linkInfo p)])"
  have o: "on_response now r p0 = (stop ?p1, ?ev, None)"
    using on_response_terminal [of r p0 now] assms(1,5,6) by (simp add: p0)
  have res: "poll_resume now (Resolved resp) p = (stop ?p1, ?ev, False)"
    unfolding poll_resume_proj Let_def p0_def [symmetric]
    using assms(2,3) by (simp add: o)
  have p1: "isRunning ?p1" "\<forall>t \<in> set (timers ?p1). timeoutId ?p1 = Some (fst t)"
    using assms(4,7) by (simp_all add: deliver_fields p0)
  note st = stop_running [OF p1]
  have idle: "\<not> isRunning (stop ?p1)"
    by (rule stop_not_running)
  note later = run_idle [OF idle assms(8)]
  have ev: "filter is_OnStatusChange ?ev =
              (if onStatusChange (callbacks p) = Absent then []
               else [OnStatusChange (linkStatus r) (linkInfo p)])"
    using deliver_quiet(2) [of p0 now r] assms(5) by (simp add: p0)
  have t: "timers (fst (run acts (stop ?p1))) = []"
    using later st(1) by simp
  show ?thesis
    unfolding res using ev idle st(1,2) later t by simp
qed

text \<open>A started poller with all three callbacks registered receives \<^verbatim>\<open>deleted\<close>.\<close>

theorem C1_witness:
  "terminal Deleted
   \<and> isRunning (fst (start 5 (demo_poller \<lparr>onPayload = Returns, onError = Returns, onStatusChange = Returns\<rparr>)))
   \<and> \<not> list_ex is_Start [Fire 1 9, Complete 9 (Rejected ''late''), Stop]
   \<and> (case poll_resume 7 (demo_response Deleted None)
             (fst (start 5 (demo_poller \<lparr>onPayload = Returns, onError = Returns, onStatusChange = Returns\<rparr>))) of
         (p', evs, threw) \<Rightarrow>
           evs = [OnStatusChange Deleted demo_link] \<and> \<not> isRunning p' \<and> timers p' = []
           \<and> filter is_Fetch (snd (run [Fire 1 9, Complete 9 (Rejected ''late''), Stop] p')) = [])"
  using C1_terminal_state_stops_poller
    [of "\<lparr> hasNewContent = False, payload = None, nextPollIn = None, error = None, linkStatus = Deleted \<rparr>"
        "\<lparr> ok = True, status = 200, statusText = ''OK'',
                json = Some \<lparr> hasNewContent = False, payload = None, nextPollIn = None,
                              error = None, linkStatus = Deleted \<rparr> \<rparr>"
        "fst (start 5 (demo_poller \<lparr>onPayload = Returns, onError = Returns, onStatusChange = Returns\<rparr>))"
        "[Fire 1 9, Complete 9 (Rejected ''late''), Stop]" 7]
  by (simp add: terminal_def demo_poller_def demo_response_def new_LinkPoller_def start_def
      poll_begin_def split_beta poll_resume_proj on_response_proj deliver_def status_change_def
      call_def stop_def)

lemma on_failure_returns:
  assumes "onError (callbacks p) \<noteq> Throws"
  shows "on_failure e p =
           (scheduleNextPoll (p\<lparr>adaptive := adjustInterval False None (adaptive p)\<rparr>),
            (if onError (callbacks p) = Absent then [] else [OnError e (linkInfo p)]),
            False)"
  using assms by (cases "onError (callbacks p)") (simp_all add: on_failure_proj call_def)

lemma poll_resume_failure:
  assumes "failure_of res = Some e"
  shows "poll_resume now res p = on_failure e (p\<lparr>inflight := inflight p - 1\<rparr>)"
  using assms
  by (auto simp add: failure_of_def poll_resume_proj Let_def
      split: fetch_result.splits if_splits option.splits)

lemma schedule_fields:
  "adaptive (scheduleNextPoll p) = adaptive p"
  "isRunning (scheduleNextPoll p) = isRunning p"
  "timeoutId (scheduleNextPoll p) = (if isRunning p then Some (Suc (timerSeq p)) else timeoutId p)"
  "timers (scheduleNextPoll p) =
     (if isRunning p then timers p @ [(Suc (timerSeq p), currentInterval (adaptive p))]
      else timers p)"
  by (simp_all add: scheduleNextPoll_def Let_def getInterval_def)

text \<open>
  Claim C4, as the code has it. The request fails (\<^verbatim>\<open>fetch\<close> rejects, the response is
  not \<^verbatim>\<open>ok\<close>, or the body is not JSON or is \<^verbatim>\<open>null\<close>) with error \<open>e\<close>, and the
  \<^verbatim>\<open>onError\<close> callback, when registered, returns normally. Then \<^verbatim>\<open>onError\<close> is invoked with \<open>e\<close> and nothing
  else is; the controller is adjusted with \<^verbatim>\<open>(false, undefined)\<close>; the running flag is
  unchanged; and a poller that is running has the next cycle scheduled after the adjusted
  interval.
\<close>

theorem C4_transport_failure_keeps_polling:
  assumes "failure_of res = Some e"
    and "onError (callbacks p) \<noteq> Throws"
  shows "case poll_resume now res p of
           (p', evs, threw) \<Rightarrow>
             evs = (if onError (callbacks p) = Absent then [] else [OnError e (linkInfo p)])
           \<and> \<not> threw
           \<and> adaptive p' = adjustInterval False None (adaptive p)
           \<and> isRunning p' = isRunning p
           \<and> (if isRunning p
               then timeoutId p' = Some (Suc (timerSeq p))
                  \<and> timers p' = timers p @
                       [(Suc (timerSeq p), currentInterval (adjustInterval False None (adaptive p)))]
               else timers p' = timers p)"
proof -
  define p0 where "p0 = p\<lparr>inflight := inflight p - 1\<rparr>"
  have p0: "isRunning p0 = isRunning p" "callbacks p0 = callbacks p" "linkInfo p0 = linkInfo p"
    "timers p0 = timers p" "timerSeq p0 = timerSeq p" "adaptive p0 = adaptive p"
    by (simp_all add: p0_def)
  have cb: "onError (callbacks p0) \<noteq> Throws"
    using assms(2) by (simp add: p0)
  have res: "poll_resume now res p =
               (scheduleNextPoll (p0\<lparr>adaptive := adjustInterval False None (adaptive p)\<rparr>),
                (if onError (callbacks p) = Absent then [] else [OnError e (linkInfo p)]),
                False)"
    unfolding poll_resume_failure [OF assms(1)] p0_def [symmetric]
    using on_failure_returns [OF cb, of e] by (simp add: p0)
  show ?thesis
    unfolding res by (simp add: schedule_fields p0)
qed

text \<open>A started poller receives a 503 response; another one a 200 response that is not JSON.\<close>

theorem C4_witness:
  "failure_of (Resolved \<lparr>ok = False, status = 503, statusText = ''Service Unavailable'', json = None\<rparr>)
     = Some (HttpError 503 ''Service Unavailable'')
   \<and> (case poll_resume 7 (Resolved \<lparr>ok = False, status = 503, statusText = ''Service Unavailable'', json = None\<rparr>)
             (fst (start 5 (demo_poller \<lparr>onPayload = Absent, onError = Returns, onStatusChange = Absent\<rparr>))) of
         (p', evs, threw) \<Rightarrow>
           evs = [OnError (HttpError 503 ''Service Unavailable'') demo_link]
           \<and> isRunning p' \<and> consecutiveEmpty (adaptive p') = 1
           \<and> timeoutId p' = Some 1 \<and> timers p' = [(1, 10000)])
   \<and> failure_of (Resolved \<lparr>ok = True, status = 200, statusText = ''OK'', json = None\<rparr>)
     = Some JsonError
   \<and> (case poll_resume 7 (Resolved \<lparr>ok = True, status = 200, statusText = ''OK'', json = None\<rparr>)
             (fst (start 5 (demo_poller \<lparr>onPayload = Absent, onError = Returns, onStatusChange = Absent\<rparr>))) of
         (p', evs, threw) \<Rightarrow>
           evs = [OnError JsonError demo_link]
           \<and> isRunning p' \<and> consecutiveEmpty (adaptive p') = 1
           \<and> timeoutId p' = Some 1 \<and> timers p' = [(1, 10000)])"
  using C4_transport_failure_keeps_polling
    [of "Resolved \<lparr>ok = False, status = 503, statusText = ''Service Unavailable'', json = None\<rparr>"
        "HttpError 503 ''Service Unavailable''"
        "fst (start 5 (demo_poller \<lparr>onPayload = Absent, onError = Returns, onStatusChange = Absent\<rparr>))" 7]
    C4_transport_failure_keeps_polling
    [of "Resolved \<lparr>ok = True, status = 200, statusText = ''OK'', json = None\<rparr>"
        "JsonError"
        "fst (start 5 (demo_poller \<lparr>onPayload = Absent, onError = Returns, onStatusChange = Absent\<rparr>))" 7]
  by (simp add: failure_of_def demo_poller_def new_LinkPoller_def new_AdaptivePoller_def start_def
      poll_begin_def split_beta adjust_empty demo_link_def)

text \<open>
  The claim as stated fails in two places. Without the proviso on \<^verbatim>\<open>onError\<close>: when
  that callback throws inside the \<^verbatim>\<open>catch\<close> block, \<^verbatim>\<open>poll()\<close> rejects before the
  controller is adjusted and before the next cycle is scheduled; the poller is running,
  with no timer pending. And with "malformed response body" read as any body that is not a
  \<^verbatim>\<open>PollResponse\<close>: on the 2xx body \<^verbatim>\<open>{}\<close> nothing throws, so it is no failure;
  \<^verbatim>\<open>onStatusChange\<close> is invoked with the missing status and \<^verbatim>\<open>onError\<close> is not
  invoked at all.
\<close>

theorem C4_counterexample:
  "isRunning (fst (start 5 (demo_poller \<lparr>onPayload = Absent, onError = Throws, onStatusChange = Absent\<rparr>)))
   \<and> poll_resume 7 (Rejected ''network down'')
        (fst (start 5 (demo_poller \<lparr>onPayload = Absent, onError = Throws, onStatusChange = Absent\<rparr>)))
     = (demo_poller \<lparr>onPayload = Absent, onError = Throws, onStatusChange = Absent\<rparr>\<lparr>isRunning := True\<rparr>,
        [OnError (FetchError ''network down'') demo_link], True)
   \<and> timers (demo_poller \<lparr>onPayload = Absent, onError = Throws, onStatusChange = Absent\<rparr>\<lparr>isRunning := True\<rparr>) = []
   \<and> consecutiveEmpty (adaptive (demo_poller \<lparr>onPayload = Absent, onError = Throws, onStatusChange = Absent\<rparr>\<lparr>isRunning := True\<rparr>)) = 0
   \<and> failure_of (Resolved \<lparr>ok = True, status = 200, statusText = ''OK'', json = Some empty_object\<rparr>) = None
   \<and> fst (snd (poll_resume 7
        (Resolved \<lparr>ok = True, status = 200, statusText = ''OK'', json = Some empty_object\<rparr>)
        (fst (start 5 (demo_poller \<lparr>onPayload = Returns, onError = Returns, onStatusChange = Returns\<rparr>)))))
     = [OnStatusChange OtherStatus demo_link]"
  by (simp add: demo_poller_def new_LinkPoller_def new_AdaptivePoller_def start_def
      poll_begin_def poll_resume_proj on_failure_proj call_def demo_link_def failure_of_def
      empty_object_def on_response_proj deliver_def status_change_def server_error_def
      terminal_def Let_def)

text \<open>
  The claim without the proviso on the callbacks fails: when \<^verbatim>\<open>onStatusChange\<close> throws,
  the exception is caught by the \<^verbatim>\<open>catch\<close> block of \<^verbatim>\<open>poll()\<close>, which reports it to
  \<^verbatim>\<open>onError\<close> and schedules the next cycle. The poller is still running after a
  \<^verbatim>\<open>deleted\<close> response, a timer is pending, and when it fires a request is sent.
\<close>

theorem C1_counterexample:
  "isRunning (fst (start 5 (demo_poller \<lparr>onPayload = Absent, onError = Returns, onStatusChange = Throws\<rparr>)))
   \<and> (case poll_resume 7 (demo_response Deleted None)
             (fst (start 5 (demo_poller \<lparr>onPayload = Absent, onError = Returns, onStatusChange = Throws\<rparr>))) of
         (p', evs, threw) \<Rightarrow>
           evs = [OnStatusChange Deleted demo_link, OnError HandlerError demo_link]
           \<and> isRunning p' \<and> timeoutId p' = Some 1 \<and> timers p' = [(1, 10000)]
           \<and> map is_Fetch (snd (fire 1 10007 p')) = [True])"
  by (simp add: demo_poller_def demo_response_def new_LinkPoller_def new_AdaptivePoller_def start_def
      poll_begin_def poll_resume_proj on_response_proj on_failure_proj deliver_def status_change_def
      call_def demo_link_def terminal_def scheduleNextPoll_def getInterval_def adjust_empty
      fire_def clearTimeout_def Let_def pollRequest_def)

text \<open>
  Claim C10, as the code has it. A running poller receives a response with a terminal link
  status and a server error \<open>m\<close>, and the callbacks invoked in that cycle (\<^verbatim>\<open>onPayload\<close>,
  \<^verbatim>\<open>onStatusChange\<close>) return normally. Then \<^verbatim>\<open>onError\<close> is not invoked, the poller
  stops, and the controller is left as it was: same current interval, same count of empty
  cycles.
\<close>

theorem C10_terminal_cycle_skips_error_and_backoff:
  assumes "terminal (linkStatus r)" and "error r = Some m"
    and "ok resp" and "json resp = Some r"
    and "isRunning p"
    and "onPayload (callbacks p) \<noteq> Throws"
    and "onStatusChange (callbacks p) \<noteq> Throws"
  shows "case poll_resume now (Resolved resp) p of
           (p', evs, threw) \<Rightarrow>
             filter is_OnError evs = [] \<and> \<not> threw \<and> \<not> isRunning p'
           \<and> adaptive p' = adaptive p
           \<and> currentInterval (adaptive p') = currentInterval (adaptive p)
           \<and> consecutiveEmpty (adaptive p') = consecutiveEmpty (adaptive p)"
proof -
  define p0 where "p0 = p\<lparr>inflight := inflight p - 1\<rparr>"
  have p0: "isRunning p0 = isRunning p" "callbacks p0 = callbacks p" "linkInfo p0 = linkInfo p"
    "adaptive p0 = adaptive p"
    by (simp_all add: p0_def)
  let ?p1 = "fst (deliver now r p0)"
  let ?ev = "fst (snd (deliver now r p0)) @
               (if onStatusChange (callbacks p) = Absent then []
                else [OnStatusChange (linkStatus r) (linkInfo p)])"
  have o: "on_response now r p0 = (stop ?p1, ?ev, None)"
    using on_response_terminal [of r p0 now] assms(1,6,7) by (simp add: p0)
  have res: "poll_resume now (Resolved resp) p = (stop ?p1, ?ev, False)"
    unfolding poll_resume_proj Let_def p0_def [symmetric]
    using assms(3,4) by (simp add: o)
  have ev: "filter is_OnError ?ev = []"
    using deliver_quiet(3) [of p0 now r] assms(6) by (simp add: p0)
  have ad: "adaptive (stop ?p1) = adaptive p"
    by (simp add: stop_def Let_def deliver_fields p0 split: option.split)
  show ?thesis
    unfolding res using ev ad stop_not_running [of ?p1] by simp
qed

text \<open>A started poller receives \<^verbatim>\<open>expired\<close> together with a server error.\<close>

theorem C10_witness:
  "terminal Expired
   \<and> (case poll_resume 7 (demo_response Expired (Some ''link expired''))
             (fst (start 5 (demo_poller \<lparr>onPayload = Returns, onError = Returns, onStatusChange = Returns\<rparr>))) of
         (p', evs, threw) \<Rightarrow>
           evs = [OnStatusChange Expired demo_link] \<and> \<not> isRunning p'
           \<and> currentInterval (adaptive p') = 10000 \<and> consecutiveEmpty (adaptive p') = 0)"
  using C10_terminal_cycle_skips_error_and_backoff
    [of "\<lparr> hasNewContent = False, payload = None, nextPollIn = None, error = Some ''link expired'', linkStatus = Expired \<rparr>"
        "''link expired''"
        "\<lparr> ok = True, status = 200, statusText = ''OK'',
                json = Some \<lparr> hasNewContent = False, payload = None, nextPollIn = None,
                              error = Some ''link expired'', linkStatus = Expired \<rparr> \<rparr>"
        "fst (start 5 (demo_poller \<lparr>onPayload = Returns, onError = Returns, onStatusChange = Returns\<rparr>))" 7]
  by (simp add: terminal_def demo_poller_def demo_response_def new_LinkPoller_def new_AdaptivePoller_def
      start_def poll_begin_def split_beta poll_resume_proj on_response_proj deliver_def status_change_def
      call_def stop_def demo_link_def)

text \<open>
  The claim without the proviso on the callbacks fails: when \<^verbatim>\<open>onStatusChange\<close> throws,
  the \<^verbatim>\<open>catch\<close> block runs, \<^verbatim>\<open>onError\<close> is invoked (with the thrown exception), the
  controller counts an empty cycle and the poller keeps running.
\<close>

theorem C10_counterexample:
  "terminal Expired
   \<and> (case poll_resume 7 (demo_response Expired (Some ''link expired''))
             (fst (start 5 (demo_poller \<lparr>onPayload = Absent, onError = Returns, onStatusChange = Throws\<rparr>))) of
         (p', evs, threw) \<Rightarrow>
           isRunning p' \<and> consecutiveEmpty (adaptive p') = 1
           \<and> filter is_OnError evs = [OnError HandlerError demo_link])"
  by (simp add: demo_poller_def demo_response_def new_LinkPoller_def new_AdaptivePoller_def start_def
      poll_begin_def poll_resume_proj on_response_proj on_failure_proj deliver_def status_change_def
      call_def demo_link_def terminal_def scheduleNextPoll_def getInterval_def adjust_empty Let_def)

text \<open>
  The proviso of claim C1 on the pending timers is an invariant of every poller that is
  started once, as the registry does: it holds after \<^verbatim>\<open>start\<close> on a new poller and is
  kept by every stop, timer and completed request.
\<close>

lemma tracked_idle: "timers p = [] \<Longrightarrow> inflight p \<le> 1 \<Longrightarrow> tracked p"
  by (simp add: tracked_def)

lemma tracked_schedule:
  assumes "timers p = []" and "inflight p = 0"
  shows "tracked (scheduleNextPoll p)"
  using assms by (simp add: tracked_def scheduleNextPoll_def Let_def)

lemma tracked_stop:
  assumes "tracked p"
  shows "tracked (stop p)"
proof (cases "isRunning p")
  case False
  with assms show ?thesis by (simp add: stop_idle)
next
  case True
  from assms have t: "\<forall>t \<in> set (timers p). timeoutId p = Some (fst t)"
    by (simp add: tracked_def)
  have "timers (stop p) = []"
    by (rule stop_running(1) [OF True t])
  moreover have "inflight (stop p) = inflight p"
    by (simp add: stop_def Let_def split: option.split)
  ultimately show ?thesis
    using assms by (simp add: tracked_def)
qed

lemma on_failure_tracked:
  assumes "timers p = []" and "inflight p = 0"
  shows "tracked (fst (on_failure e p))"
  using assms tracked_schedule [of "p\<lparr>adaptive := adjustInterval False None (adaptive p)\<rparr>"]
  by (simp add: on_failure_proj tracked_idle)

lemma on_response_tracked:
  assumes "timers p = []" and "inflight p = 0"
  shows "tracked (fst (on_response now r p))"
    and "snd (snd (on_response now r p)) \<noteq> None \<Longrightarrow>
           timers (fst (on_response now r p)) = [] \<and> inflight (fst (on_response now r p)) = 0"
proof -
  let ?p1 = "fst (deliver now r p)"
  have p1: "timers ?p1 = []" "inflight ?p1 = 0"
    using assms by (simp_all add: deliver_fields)
  have a: "tracked ?p1"
    using p1 by (simp add: tracked_idle)
  have b: "tracked (stop ?p1)"
    by (rule tracked_stop [OF a])
  have c: "tracked (scheduleNextPoll (?p1\<lparr>adaptive := x\<rparr>))" for x
    using p1 by (intro tracked_schedule) simp_all
  show "tracked (fst (on_response now r p))"
    using a b c by (simp add: on_response_proj Let_def)
  show "timers (fst (on_response now r p)) = [] \<and> inflight (fst (on_response now r p)) = 0"
    if "snd (snd (on_response now r p)) \<noteq> None"
    using that p1 by (auto simp add: on_response_proj Let_def split: if_splits)
qed

lemma poll_resume_tracked:
  assumes "tracked p" and "inflight p \<noteq> 0"
  shows "tracked (fst (poll_resume now res p))"
proof -
  define p0 where "p0 = p\<lparr>inflight := inflight p - 1\<rparr>"
  from assms have le: "inflight p + length (timers p) \<le> 1" and pos: "0 < inflight p"
    by (simp_all add: tracked_def)
  have one: "inflight p = 1"
    using le pos by linarith
  have "length (timers p) = 0"
    using le pos by linarith
  then have "timers p = []"
    by simp
  with one have p0: "timers p0 = []" "inflight p0 = 0"
    by (simp_all add: p0_def)
  note f = on_failure_tracked [OF p0]
  note r = on_response_tracked [OF p0]
  have g: "tracked (fst (on_failure e (fst (on_response now x p0))))"
    if "snd (snd (on_response now x p0)) \<noteq> None" for e x
    using r(2) [OF that] by (intro on_failure_tracked) simp_all
  show ?thesis
    unfolding poll_resume_proj Let_def p0_def [symmetric]
    using f r(1) g by (auto split: fetch_result.split option.split)
qed

lemma poll_begin_tracked:
  assumes "timers p = []" and "inflight p = 0"
  shows "tracked (fst (poll_begin now p))"
  using assms by (simp add: poll_begin_def tracked_def)

lemma step_tracked:
  assumes "tracked p" and "\<not> is_Start a"
  shows "tracked (fst (step a p))"
proof (cases a)
  case (Start now)
  with assms(2) show ?thesis by simp
next
  case Stop
  with assms(1) show ?thesis by (simp add: tracked_stop)
next
  case (Fire h now)
  show ?thesis
  proof (cases "h \<in> fst ` set (timers p)")
    case False
    with Fire assms(1) show ?thesis by (simp add: fire_def)
  next
    case True
    then obtain t where t: "timers p = [t]" and i: "inflight p = 0"
      using assms(1) by (cases "timers p") (auto simp add: tracked_def)
    with True have "clearTimeout h (timers p) = []"
      by (simp add: clearTimeout_def)
    with Fire True i show ?thesis
      using poll_begin_tracked [of "p\<lparr>timers := []\<rparr>" now] by (simp add: fire_def)
  qed
next
  case (Complete now res)
  with assms(1) show ?thesis
    using poll_resume_tracked [OF assms(1), of now res] by (simp add: split_beta)
qed

lemma run_tracked:
  assumes "tracked p" and "\<not> list_ex is_Start acts"
  shows "tracked (fst (run acts p))"
  using assms
proof (induction acts arbitrary: p)
  case Nil
  then show ?case by simp
next
  case (Cons a acts)
  from Cons.prems have "tracked (fst (step a p))" "\<not> list_ex is_Start acts"
    by (simp_all add: step_tracked)
  then have "tracked (fst (run acts (fst (step a p))))"
    by (rule Cons.IH)
  then show ?case by (simp add: split_beta)
qed

lemma started_tracked: "tracked (fst (start now (new_LinkPoller li opts cid)))"
  by (simp add: start_def poll_begin_def new_LinkPoller_def tracked_def)

section \<open>Properties of link parsing and the registry\<close>



text \<open>
  Claim C8. \<^verbatim>\<open>stop()\<close> on a poller that is not running returns the poller unchanged and
  causes no event; \<^verbatim>\<open>stopListening\<close> with an identifier that is not in the table
  returns the registry unchanged, stops no poller and hands out nothing. Neither
  operation has an error result.
\<close>

theorem C8_stop_is_idempotent:
  assumes "\<not> isRunning p"
    and "map_of (activeListeners sdk) lid = None"
  shows "stop p = p \<and> step Stop p = (p, [])
       \<and> stopListening lid sdk = (sdk, None)
       \<and> sdk_step new_URL (StopListening lid) sdk = (sdk, [])"
  using assms by (simp add: stop_idle stopListening_def)

text \<open>
  The part of claim C6 the code does satisfy: a link that \<^verbatim>\<open>validateLink\<close> returns as
  invalid is rejected with the invalid-link error, and any rejection before the listener
  is created leaves the registry as it was.
\<close>

lemma startListening_invalid:
  assumes "validateLink new_URL sdk arg = Inr li" and "\<not> isValid li"
  shows "startListening new_URL arg cbs now cid t0 res sdk = (Inl InvalidLink, sdk, [])"
  using assms by (simp add: startListening_def)

lemma startListening_throws:
  assumes "validateLink new_URL sdk arg = Inl e"
  shows "startListening new_URL arg cbs now cid t0 res sdk = (Inl e, sdk, [])"
  using assms by (simp add: startListening_def)

lemma startListening_rejected_early:
  assumes "validateLink new_URL sdk arg \<noteq> Inr li \<or> \<not> isValid li"
    and "validateLink new_URL sdk arg = Inr li \<or> (\<exists>e. validateLink new_URL sdk arg = Inl e)"
  shows "snd (startListening new_URL arg cbs now cid t0 res sdk) = (sdk, [])"
  using assms by (auto simp add: startListening_def)

text \<open>
  Claim C6 at an input where the code departs from it. The URL below matches the custom
  domain pattern (domain \<^verbatim>\<open>a:99999\<close>), so \<^verbatim>\<open>parseLink\<close> goes on to \<^verbatim>\<open>new URL(url)\<close>,
  which throws for a port above 65535. With any constructor that throws on this URL,
  \<^verbatim>\<open>startListening\<close> rejects with that exception instead of the invalid-link error.
  The registry is unchanged all the same.
\<close>

theorem C6_url_constructor_exception_escapes:
  "startListening (new_URL(''https://a:99999/link/abcdefghijklmnop'' := None))
     (Str ''https://a:99999/link/abcdefghijklmnop'') cbs now cid t0 res sdk
   = (Inl UrlTypeError, sdk, [])"
proof -
  have m1: "match_secretLinks ''https://a:99999/link/abcdefghijklmnop'' = None"
    by (simp add: match_secretLinks_def strip_prefix_def)
  have m2: "match_customDomain ''https://a:99999/link/abcdefghijklmnop''
              = Some (''a:99999'', ''abcdefghijklmnop'')"
    by (simp add: match_customDomain_def strip_prefix_def match_token_def is_token_char_def
        match_tail_def)
  have "parseLink (new_URL(''https://a:99999/link/abcdefghijklmnop'' := None))
          (Str ''https://a:99999/link/abcdefghijklmnop'') = Inl UrlTypeError"
    by (simp add: parseLink_def m1 m2)
  then show ?thesis
    by (simp add: startListening_def validateLink_def)
qed

text \<open>
  Claim C3 at an input where the code departs from it. A registry built with
  \<^verbatim>\<open>pingInterval: 5000\<close> stores 5000 as its ping interval, and listens to a ping link
  whose first response has new content. The poller it creates has base interval 10000,
  and the next cycle is scheduled after 10000 ms.
\<close>

theorem C3_configured_interval_is_ignored:
  "case new_SecretLinksSDK any_URL (demo_options\<lparr>pingInterval := Some 5000\<rparr>) of
     Inl e \<Rightarrow> False
   | Inr sdk \<Rightarrow>
       ping (intervals sdk) = 5000
     \<and> (case startListening any_URL (Str ''https://secret.annai.ai/link/abc123def456ghi789'')
               no_callbacks 1700000000000 ''sdk-1-a'' 1700000000001
               (Resolved \<lparr>ok = True, status = 200, statusText = ''OK'',
                  json = Some \<lparr>hasNewContent = True, payload = None, nextPollIn = None,
                               error = None, linkStatus = Active\<rparr>\<rparr>) sdk of
          (r, sdk1, evs) \<Rightarrow>
            r = Inr ''listener-1700000000000-1''
          \<and> map (\<lambda>e. linkType (linkInfo (snd e))) (activeListeners sdk1) = [Ping]
          \<and> map (\<lambda>e. baseInterval (adaptive (snd e))) (activeListeners sdk1) = [10000]
          \<and> map (\<lambda>e. timers (snd e)) (activeListeners sdk1) = [[(1, 10000)]])"
proof -
  have m: "match_secretLinks ''https://secret.annai.ai/link/abc123def456ghi789''
             = Some ''abc123def456ghi789''"
    by (simp add: match_secretLinks_def strip_prefix_def match_token_def is_token_char_def
        match_tail_def)
  have p: "parseLink any_URL (Str ''https://secret.annai.ai/link/abc123def456ghi789'')
            = Inr \<lparr> isValid = True, token = ''abc123def456ghi789'', linkType = Ping,
                    hasPassword = False, hasEncryption = False, domain = ''secret.annai.ai'',
                    password = None, encryptionKey = None \<rparr>"
    by (simp add: parseLink_def m any_URL_def detectLinkType_def)
  have i: "listenerId 1700000000000 (Suc 0) = ''listener-1700000000000-1''"
    by (simp add: listenerId_def show_int_def show_nat.simps digit_def)
  show ?thesis
    by (simp add: new_SecretLinksSDK_def validateSDKOptions_def demo_options_def any_URL_def
        or_default_def startListening_def validateLink_def applyValidationRules_def p i
        no_callbacks_def new_LinkPoller_def new_AdaptivePoller_def start_def poll_begin_def
        poll_resume_def on_response_def deliver_def status_change_def server_error_def
        scheduleNextPoll_def getInterval_def adjustInterval_def Let_def)
qed


text \<open>
  The counter can be read back from an identifier, so two identifiers with different
  counters differ, whatever the clock says.
\<close>

lemma digit_cases:
  assumes "d < (10::nat)"
  shows "d = 0 \<or> d = 1 \<or> d = 2 \<or> d = 3 \<or> d = 4 \<or> d = 5 \<or> d = 6 \<or> d = 7 \<or> d = 8 \<or> d = 9"
  using assms by arith

lemma digit_value:
  assumes "d < 10"
  shows "of_char (digit d) - 48 = d" and "digit d \<noteq> CHR ''-''"
  using digit_cases [OF assms] by (auto simp add: digit_def)

lemma show_nat_no_hyphen: "CHR ''-'' \<notin> set (show_nat n)"
proof (induction n rule: show_nat.induct)
  case (1 n)
  show ?case
  proof (cases "n < 10")
    case True
    then show ?thesis
      using digit_value(2) [of n] by (subst show_nat.simps) auto
  next
    case False
    then show ?thesis
      using "1.IH" digit_value(2) [of "n mod 10"] by (subst show_nat.simps) auto
  qed
qed

lemma read_nat_show_nat: "read_nat (show_nat n) = n"
proof (induction n rule: show_nat.induct)
  case (1 n)
  show ?case
  proof (cases "n < 10")
    case True
    then show ?thesis
      using digit_value(1) [of n] by (subst show_nat.simps) (simp add: read_nat_def)
  next
    case False
    have "read_nat (show_nat n) = 10 * read_nat (show_nat (n div 10)) + (of_char (digit (n mod 10)) - 48)"
      using False by (subst show_nat.simps) (simp add: read_nat_def)
    also have "\<dots> = 10 * (n div 10) + n mod 10"
      using "1.IH" [OF False] digit_value(1) [of "n mod 10"] by simp
    finally show ?thesis by simp
  qed
qed

lemma takeWhile_stop:
  assumes "\<forall>x \<in> set xs. P x" and "\<not> P y"
  shows "takeWhile P (xs @ y # ys) = xs"
  using assms by (induction xs) auto

lemma counter_of_listenerId: "counter_of (listenerId now c) = c"
proof -
  have r: "rev (listenerId now c) = rev (show_nat c) @ CHR ''-'' # rev (''listener-'' @ show_int now)"
    by (simp add: listenerId_def)
  have d: "\<forall>x \<in> set (rev (show_nat c)). x \<noteq> CHR ''-''"
    using show_nat_no_hyphen [of c] by auto
  have "takeWhile (\<lambda>x. x \<noteq> CHR ''-'') (rev (listenerId now c)) = rev (show_nat c)"
    unfolding r by (rule takeWhile_stop [OF d]) simp
  then show ?thesis
    by (simp add: counter_of_def read_nat_show_nat)
qed


lemma startListening_result:
  "(\<exists>e. startListening new_URL arg cbs now cid t0 res sdk = (Inl e, sdk, []))
   \<or> (\<exists>e p evs. startListening new_URL arg cbs now cid t0 res sdk =
         (Inl e,
          sdk\<lparr>listenerCounter := Suc (listenerCounter sdk),
              activeListeners :=
                AList.delete (listenerId now (Suc (listenerCounter sdk)))
                  (AList.update (listenerId now (Suc (listenerCounter sdk))) p (activeListeners sdk))\<rparr>,
          evs))
   \<or> (\<exists>p q evs. startListening new_URL arg cbs now cid t0 res sdk =
         (Inr (listenerId now (Suc (listenerCounter sdk))),
          sdk\<lparr>listenerCounter := Suc (listenerCounter sdk),
              activeListeners :=
                AList.update (listenerId now (Suc (listenerCounter sdk))) q
                  (AList.update (listenerId now (Suc (listenerCounter sdk))) p (activeListeners sdk))\<rparr>,
          evs))"
proof (cases "validateLink new_URL sdk arg")
  case (Inl e)
  then show ?thesis by (simp add: startListening_def)
next
  case (Inr li)
  show ?thesis
  proof (cases "isValid li")
    case False
    with Inr show ?thesis by (simp add: startListening_def)
  next
    case True
    with Inr show ?thesis
      by (simp add: startListening_def Let_def) blast
  qed
qed

lemma keys_update: "keys (sdk\<lparr>activeListeners := AList.update k v (activeListeners sdk)\<rparr>) = insert k (keys sdk)"
  by (simp add: keys_def dom_update)

lemma keys_delete: "keys (sdk\<lparr>activeListeners := AList.delete k (activeListeners sdk)\<rparr>) \<subseteq> keys sdk"
  using dom_delete_subset [of k "activeListeners sdk"] by (simp add: keys_def)

lemma sdk_step_effect:
  "listenerCounter sdk \<le> listenerCounter (fst (sdk_step new_URL x sdk))
   \<and> (distinct (map fst (activeListeners sdk)) \<longrightarrow>
        distinct (map fst (activeListeners (fst (sdk_step new_URL x sdk)))))
   \<and> keys (fst (sdk_step new_URL x sdk)) \<subseteq> keys sdk \<union> set (snd (sdk_step new_URL x sdk))
   \<and> distinct (snd (sdk_step new_URL x sdk))
   \<and> (\<forall>i \<in> set (snd (sdk_step new_URL x sdk)).
         counter_of i = listenerCounter (fst (sdk_step new_URL x sdk))
       \<and> listenerCounter sdk < counter_of i)"
proof (cases x)
  case (StartListening arg cbs now cid t0 res)
  let ?k = "listenerId now (Suc (listenerCounter sdk))"
  from startListening_result [of new_URL arg cbs now cid t0 res sdk]
  show ?thesis
  proof (elim disjE exE)
    fix e
    assume "startListening new_URL arg cbs now cid t0 res sdk = (Inl e, sdk, [])"
    then show ?thesis
      unfolding StartListening by simp
  next
    fix e p evs
    assume "startListening new_URL arg cbs now cid t0 res sdk =
         (Inl e,
          sdk\<lparr>listenerCounter := Suc (listenerCounter sdk),
              activeListeners := AList.delete ?k (AList.update ?k p (activeListeners sdk))\<rparr>,
          evs)"
    then show ?thesis
      unfolding StartListening
      using dom_delete_subset [of ?k "activeListeners sdk"]
      by (simp add: delete_update_same distinct_delete keys_def)
  next
    fix p q evs
    assume "startListening new_URL arg cbs now cid t0 res sdk =
         (Inr ?k,
          sdk\<lparr>listenerCounter := Suc (listenerCounter sdk),
              activeListeners := AList.update ?k q (AList.update ?k p (activeListeners sdk))\<rparr>,
          evs)"
    then show ?thesis
      unfolding StartListening
      by (auto simp add: distinct_update keys_def dom_update counter_of_listenerId)
  qed
next
  case (StopListening lid)
  then show ?thesis
    using dom_delete_subset [of lid "activeListeners sdk"]
    by (auto simp add: keys_def stopListening_def distinct_delete split: option.split)
next
  case StopAll
  then show ?thesis by (simp add: keys_def stopAll_def)
next
  case (Poller lid a)
  show ?thesis
  proof (cases "map_of (activeListeners sdk) lid")
    case None
    with Poller show ?thesis by simp
  next
    case (Some poller)
    then have "lid \<in> fst ` set (activeListeners sdk)"
      by (metis domI dom_map_of_conv_image_fst)
    with Poller Some show ?thesis
      by (auto simp add: keys_def distinct_update dom_update)
  qed
qed

lemma sdk_run_effect:
  "listenerCounter sdk \<le> listenerCounter (fst (sdk_run new_URL xs sdk))
   \<and> (distinct (map fst (activeListeners sdk)) \<longrightarrow>
        distinct (map fst (activeListeners (fst (sdk_run new_URL xs sdk)))))
   \<and> keys (fst (sdk_run new_URL xs sdk)) \<subseteq> keys sdk \<union> set (snd (sdk_run new_URL xs sdk))
   \<and> distinct (snd (sdk_run new_URL xs sdk))
   \<and> (\<forall>i \<in> set (snd (sdk_run new_URL xs sdk)).
         counter_of i \<le> listenerCounter (fst (sdk_run new_URL xs sdk))
       \<and> listenerCounter sdk < counter_of i)"
proof (induction xs arbitrary: sdk)
  case Nil
  show ?case by simp
next
  case (Cons x xs)
  let ?s1 = "fst (sdk_step new_URL x sdk)"
  let ?i1 = "snd (sdk_step new_URL x sdk)"
  let ?s2 = "fst (sdk_run new_URL xs ?s1)"
  let ?i2 = "snd (sdk_run new_URL xs ?s1)"
  have run: "sdk_run new_URL (x # xs) sdk = (?s2, ?i1 @ ?i2)"
    by (simp add: split_beta)
  note s = sdk_step_effect [of sdk new_URL x]
  note r = Cons.IH [of ?s1]
  have c: "listenerCounter sdk \<le> listenerCounter ?s2"
    using s r by linarith
  have d: "distinct (map fst (activeListeners sdk)) \<longrightarrow> distinct (map fst (activeListeners ?s2))"
    using s r by blast
  have k: "keys ?s2 \<subseteq> keys sdk \<union> set (?i1 @ ?i2)"
    using s r by auto
  have disj: "set ?i1 \<inter> set ?i2 = {}"
  proof (rule ccontr)
    assume "set ?i1 \<inter> set ?i2 \<noteq> {}"
    then obtain i where i1: "i \<in> set ?i1" and i2: "i \<in> set ?i2" by auto
    from s i1 have "counter_of i = listenerCounter ?s1" by blast
    moreover from r i2 have "listenerCounter ?s1 < counter_of i" by blast
    ultimately show False by simp
  qed
  have di: "distinct (?i1 @ ?i2)"
    using s r disj by simp
  have b: "\<forall>i \<in> set (?i1 @ ?i2). counter_of i \<le> listenerCounter ?s2 \<and> listenerCounter sdk < counter_of i"
  proof
    fix i assume "i \<in> set (?i1 @ ?i2)"
    then consider "i \<in> set ?i1" | "i \<in> set ?i2" by auto
    then show "counter_of i \<le> listenerCounter ?s2 \<and> listenerCounter sdk < counter_of i"
    proof cases
      case 1
      with s have "counter_of i = listenerCounter ?s1" "listenerCounter sdk < counter_of i"
        by blast+
      with r show ?thesis by simp
    next
      case 2
      with r have "counter_of i \<le> listenerCounter ?s2" "listenerCounter ?s1 < counter_of i"
        by blast+
      with s show ?thesis by simp
    qed
  qed
  show ?case
    unfolding run using c d k di b by simp
qed

lemma sdk_run_append:
  "sdk_run new_URL (xs @ ys) sdk =
     (fst (sdk_run new_URL ys (fst (sdk_run new_URL xs sdk))),
      snd (sdk_run new_URL xs sdk) @ snd (sdk_run new_URL ys (fst (sdk_run new_URL xs sdk))))"
  by (induction xs arbitrary: sdk) (simp_all add: split_beta)

lemma new_sdk_fresh:
  assumes "new_SecretLinksSDK new_URL opts = Inr sdk"
  shows "activeListeners sdk = []" and "listenerCounter sdk = 0"
  using assms by (auto simp add: new_SecretLinksSDK_def split: option.splits)

text \<open>
  Claim C7. Take a registry as its constructor returns it and any history of operations on
  it (calls of \<^verbatim>\<open>startListening\<close>, \<^verbatim>\<open>stopListening\<close> and \<^verbatim>\<open>stopAll\<close>, and events of
  the pollers it tracks), split anywhere into an earlier part \<open>xs\<close> and a later part
  \<open>ys\<close>. The identifiers handed out over the whole history are pairwise distinct; the
  table never holds two entries for one identifier, and holds only identifiers that were
  handed out; and an identifier handed out in the earlier part, whether still in the table
  or removed since, is not handed out again in the later part.
\<close>

theorem C7_listener_ids_are_never_reused:
  assumes "new_SecretLinksSDK new_URL opts = Inr sdk"
  shows "distinct (snd (sdk_run new_URL (xs @ ys) sdk))
       \<and> distinct (map fst (activeListeners (fst (sdk_run new_URL (xs @ ys) sdk))))
       \<and> keys (fst (sdk_run new_URL (xs @ ys) sdk)) \<subseteq> set (snd (sdk_run new_URL (xs @ ys) sdk))
       \<and> (\<forall>i \<in> set (snd (sdk_run new_URL xs sdk)).
             i \<notin> set (snd (sdk_run new_URL ys (fst (sdk_run new_URL xs sdk)))))"
proof -
  note f = new_sdk_fresh [OF assms]
  note e = sdk_run_effect [of sdk new_URL "xs @ ys"]
  have d: "distinct (snd (sdk_run new_URL (xs @ ys) sdk))"
    using e by blast
  have t: "distinct (map fst (activeListeners (fst (sdk_run new_URL (xs @ ys) sdk))))"
    using e f(1) by simp
  have k: "keys (fst (sdk_run new_URL (xs @ ys) sdk)) \<subseteq> set (snd (sdk_run new_URL (xs @ ys) sdk))"
    using e f(1) by (simp add: keys_def)
  have n: "\<forall>i \<in> set (snd (sdk_run new_URL xs sdk)).
             i \<notin> set (snd (sdk_run new_URL ys (fst (sdk_run new_URL xs sdk))))"
    using d unfolding sdk_run_append by auto
  from d t k n show ?thesis by blast
qed


theorem C8_witness:
  "\<not> isRunning (stop (fst (start 5 (demo_poller no_callbacks))))
   \<and> map_of (activeListeners demo_sdk) ''non-existent-id'' = None
   \<and> stop (stop (fst (start 5 (demo_poller no_callbacks))))
       = stop (fst (start 5 (demo_poller no_callbacks)))
   \<and> stopListening ''non-existent-id'' demo_sdk = (demo_sdk, None)"
proof -
  have a: "\<not> isRunning (stop (fst (start 5 (demo_poller no_callbacks))))"
    by (rule stop_not_running)
  have b: "map_of (activeListeners demo_sdk) ''non-existent-id'' = None"
    by (simp add: demo_sdk_def)
  show ?thesis
    using C8_stop_is_idempotent [OF a b] a b by simp
qed

theorem C7_witness:
  "new_SecretLinksSDK any_URL demo_options = Inr demo_sdk
   \<and> snd (sdk_run any_URL
        ([StartListening (Str demo_url) no_callbacks 1700000000000 ''sdk-1-a'' 1700000000000
            (Rejected ''offline'')]
         @ [StopAll,
            StartListening (Str demo_url) no_callbacks 1700000000000 ''sdk-1-b'' 1700000000000
              (Rejected ''offline'')]) demo_sdk)
     = [''listener-1700000000000-1'', ''listener-1700000000000-2'']
   \<and> distinct (snd (sdk_run any_URL
        ([StartListening (Str demo_url) no_callbacks 1700000000000 ''sdk-1-a'' 1700000000000
            (Rejected ''offline'')]
         @ [StopAll,
            StartListening (Str demo_url) no_callbacks 1700000000000 ''sdk-1-b'' 1700000000000
              (Rejected ''offline'')]) demo_sdk))"
proof -
  have a: "new_SecretLinksSDK any_URL demo_options = Inr demo_sdk"
    by (simp add: new_SecretLinksSDK_def validateSDKOptions_def demo_options_def any_URL_def
        or_default_def demo_sdk_def)
  have m: "match_secretLinks demo_url = Some ''abc123def456ghi789''"
    by (simp add: demo_url_def match_secretLinks_def strip_prefix_def match_token_def
        is_token_char_def match_tail_def)
  have v: "validateLink any_URL sdk (Str demo_url)
            = Inr \<lparr> isValid = True, token = ''abc123def456ghi789'', linkType = Ping,
                    hasPassword = False, hasEncryption = False, domain = ''secret.annai.ai'',
                    password = None, encryptionKey = None \<rparr>"
    if "validation sdk = None" for sdk
    using that
    by (simp add: validateLink_def parseLink_def m any_URL_def detectLinkType_def
        applyValidationRules_def) (simp add: demo_url_def)
  have i: "listenerId 1700000000000 (Suc 0) = ''listener-1700000000000-1''"
          "listenerId 1700000000000 (Suc (Suc 0)) = ''listener-1700000000000-2''"
    by (simp_all add: listenerId_def show_int_def show_nat.simps digit_def)
  have r: "snd (sdk_run any_URL
        ([StartListening (Str demo_url) no_callbacks 1700000000000 ''sdk-1-a'' 1700000000000
            (Rejected ''offline'')]
         @ [StopAll,
            StartListening (Str demo_url) no_callbacks 1700000000000 ''sdk-1-b'' 1700000000000
              (Rejected ''offline'')]) demo_sdk)
     = [''listener-1700000000000-1'', ''listener-1700000000000-2'']"
    by (simp add: startListening_def v i demo_sdk_def stopAll_def Let_def no_callbacks_def
        poll_resume_proj on_failure_proj call_def start_def poll_begin_def new_LinkPoller_def)
  show ?thesis
    using C7_listener_ids_are_never_reused [OF a] a r by simp
qed

end
